theory Spec2Isabelle
  imports Complex_Main "HOL-Library.AList" "HOL-Library.Multiset"
begin

section \<open>JavaScript values\<close>

text \<open>
  Roadmap documents are plain JSON-like values read from the document store. A JavaScript
  object is an association list (insertion order kept); a missing property reads as
  \<open>JUndefined\<close>. Document numbers are modelled as integers.
\<close>

datatype json =
    JUndefined
  | JNull
  | JBool bool
  | JNum int
  | JStr string
  | JArr "json list"
  | JObj "(string \<times> json) list"

text \<open>
  \<open>TypeError\<close> is the exception JavaScript raises when a property of \<open>null\<close> or
  \<open>undefined\<close> is read or when a missing method (\<open>.map\<close>, \<open>.forEach\<close>) is called.
  \<open>Unmodelled\<close> marks the few places where the outcome depends on something this value
  model does not carry (string-to-number coercion, object identity, the length and
  elements of a \<open>selectedTools\<close> that is not an array).
\<close>

datatype js_error = TypeError | Unmodelled

text \<open>ToBoolean.\<close>

fun truthy :: "json \<Rightarrow> bool" where
  "truthy JUndefined = False"
| "truthy JNull = False"
| "truthy (JBool b) = b"
| "truthy (JNum n) = (n \<noteq> 0)"
| "truthy (JStr s) = (s \<noteq> [])"
| "truthy (JArr xs) = True"
| "truthy (JObj kvs) = True"

text \<open>\<open>a || b\<close> on already evaluated operands.\<close>

definition js_or :: "json \<Rightarrow> json \<Rightarrow> json" where
  "js_or a b = (if truthy a then a else b)"

definition lookup :: "(string \<times> json) list \<Rightarrow> string \<Rightarrow> json" where
  "lookup kvs k = (case map_of kvs k of None \<Rightarrow> JUndefined | Some v \<Rightarrow> v)"

text \<open>
  \<open>v.k\<close> for a data property \<open>k\<close> (none of the names read this way is a built-in
  property of strings, arrays, numbers or booleans; \<open>length\<close> has its own function).
\<close>

fun js_get :: "json \<Rightarrow> string \<Rightarrow> js_error + json" where
  "js_get JUndefined k = Inl TypeError"
| "js_get JNull k = Inl TypeError"
| "js_get (JObj kvs) k = Inr (lookup kvs k)"
| "js_get v k = Inr JUndefined"

text \<open>Sequencing of computations that may throw.\<close>

fun js_bind :: "js_error + 'a \<Rightarrow> ('a \<Rightarrow> js_error + 'b) \<Rightarrow> js_error + 'b" where
  "js_bind (Inl e) f = Inl e"
| "js_bind (Inr x) f = f x"

section \<open>The step flow (App.jsx and InterestSelector)\<close>

text \<open>
  A recommended tool as the selector handles it: \<open>tool.name\<close> and \<open>tool.domain\<close>
  (absent or empty counts as falsy in \<open>tool.domain || ''\<close>); the remaining fields ride
  along in the record extension.
\<close>

record tool =
  name :: string
  domain :: "string option"

text \<open>\<open>`${tool.name}-${tool.domain || ''}`\<close>\<close>

definition toolId :: "'a tool_scheme \<Rightarrow> string" where
  "toolId t = name t @ ''-'' @ (case domain t of None \<Rightarrow> [] | Some d \<Rightarrow> d)"

text \<open>The state updater passed to \<open>setSelectedTools\<close> in \<open>toggleTool\<close>.\<close>

definition toggleTool :: "'a tool_scheme list \<Rightarrow> 'a tool_scheme \<Rightarrow> 'a tool_scheme list" where
  "toggleTool prev t =
     (case find (\<lambda>u. toolId u = toolId t) prev of
        Some exists \<Rightarrow> filter (\<lambda>u. toolId u \<noteq> toolId t) prev
      | None \<Rightarrow>
          if length prev \<ge> 8 then prev
          else prev @ [t\<lparr>domain :=
                 Some (case domain t of None \<Rightarrow> ''unknown''
                       | Some d \<Rightarrow> if d = [] then ''unknown'' else d)\<rparr>])"

text \<open>
  The state of \<open>App\<close> (its \<open>useState\<close> cells) together with the one cell of the mounted
  \<open>InterestSelector\<close> that matters here, its own \<open>selectedTools\<close>, called \<open>picked\<close>.
\<close>

record app_state =
  step :: nat
  resumeData :: json
  profile :: json
  selectedTools :: "tool list"
  preferences :: json
  roadmap :: json
  generatingRoadmap :: bool
  error :: json
  picked :: "tool list"

definition initial :: app_state where
  "initial = \<lparr>step = 1, resumeData = JNull, profile = JNull, selectedTools = [],
     preferences = JObj [], roadmap = JNull, generatingRoadmap = False, error = JNull,
     picked = []\<rparr>"

text \<open>
  What the user or the network can do. \<open>PreferencesSet\<close> is \<open>handlePreferencesSet\<close> up to
  its \<open>await\<close>; \<open>GenerationSucceeded\<close> and \<open>GenerationFailed\<close> are the two ways the awaited
  call comes back.
\<close>

datatype event =
    ResumeComplete json json
  | ToggleTool tool
  | Generate
  | PreferencesSet json
  | GenerationSucceeded json
  | GenerationFailed json
  | Back
  | StartOver
  | DismissError

text \<open>The JSX conditions under which each child component is on screen.\<close>

definition showsResumeUpload :: "app_state \<Rightarrow> bool" where
  "showsResumeUpload s = (\<not> generatingRoadmap s \<and> step s = 1)"

definition showsInterestSelector :: "app_state \<Rightarrow> bool" where
  "showsInterestSelector s = (\<not> generatingRoadmap s \<and> step s = 2 \<and> truthy (profile s))"

definition showsTimeCommitment :: "app_state \<Rightarrow> bool" where
  "showsTimeCommitment s =
     (\<not> generatingRoadmap s \<and> step s = 3 \<and> length (selectedTools s) > 0)"

definition showsRoadmapDisplay :: "app_state \<Rightarrow> bool" where
  "showsRoadmapDisplay s = (\<not> generatingRoadmap s \<and> step s = 4 \<and> truthy (roadmap s))"

text \<open>
  An event can happen only if the control that triggers it is rendered: the Back button
  sits inside the blocks of steps 2 and 3, Start Over in the header whenever \<open>step > 1\<close>
  and below the roadmap at step 4. The answer of a generation request is let in at any
  time: requests are not counted, which only adds behaviours.
\<close>

fun enabled :: "app_state \<Rightarrow> event \<Rightarrow> bool" where
  "enabled s (ResumeComplete r p) = showsResumeUpload s"
| "enabled s (ToggleTool t) = showsInterestSelector s"
| "enabled s Generate = showsInterestSelector s"
| "enabled s (PreferencesSet p) = showsTimeCommitment s"
| "enabled s (GenerationSucceeded r) = True"
| "enabled s (GenerationFailed m) = True"
| "enabled s Back = (showsInterestSelector s \<or> showsTimeCommitment s)"
| "enabled s StartOver = (step s > 1 \<or> showsRoadmapDisplay s)"
| "enabled s DismissError = truthy (error s)"

definition handleResumeComplete :: "json \<Rightarrow> json \<Rightarrow> app_state \<Rightarrow> app_state" where
  "handleResumeComplete resumeText prof s = s\<lparr>resumeData := resumeText, profile := prof, step := 2\<rparr>"

definition handleToolsSelected :: "tool list \<Rightarrow> app_state \<Rightarrow> app_state" where
  "handleToolsSelected tools s = s\<lparr>selectedTools := tools, step := 3\<rparr>"

text \<open>\<open>handleGenerate\<close> of the selector; \<open>onSelect\<close> is \<open>handleToolsSelected\<close>.\<close>

definition handleGenerate :: "app_state \<Rightarrow> app_state" where
  "handleGenerate s =
     (if length (picked s) \<ge> 2 then handleToolsSelected (picked s) s else s)"

definition handleBack :: "app_state \<Rightarrow> app_state" where
  "handleBack s = (if step s > 1 then s\<lparr>step := step s - 1, error := JNull\<rparr> else s)"

definition handleStartOver :: "app_state \<Rightarrow> app_state" where
  "handleStartOver s = s\<lparr>step := 1, resumeData := JNull, profile := JNull, selectedTools := [],
     preferences := JObj [], roadmap := JNull, error := JNull\<rparr>"

definition handlePreferencesSet :: "json \<Rightarrow> app_state \<Rightarrow> app_state" where
  "handlePreferencesSet prefs s = s\<lparr>preferences := prefs, generatingRoadmap := True, error := JNull\<rparr>"

definition generationSucceeded :: "json \<Rightarrow> app_state \<Rightarrow> app_state" where
  "generationSucceeded r s = s\<lparr>roadmap := r, step := 4, generatingRoadmap := False\<rparr>"

definition generationFailed :: "json \<Rightarrow> app_state \<Rightarrow> app_state" where
  "generationFailed msg s = s\<lparr>error := msg, generatingRoadmap := False\<rparr>"

fun handler :: "event \<Rightarrow> app_state \<Rightarrow> app_state" where
  "handler (ResumeComplete r p) s = handleResumeComplete r p s"
| "handler (ToggleTool t) s = s\<lparr>picked := toggleTool (picked s) t\<rparr>"
| "handler Generate s = handleGenerate s"
| "handler (PreferencesSet p) s = handlePreferencesSet p s"
| "handler (GenerationSucceeded r) s = generationSucceeded r s"
| "handler (GenerationFailed m) s = generationFailed m s"
| "handler Back s = handleBack s"
| "handler StartOver s = handleStartOver s"
| "handler DismissError s = s\<lparr>error := JNull\<rparr>"

text \<open>
  The selector's own state lives only while the selector is mounted: a render that does
  not show it drops the state, and the next mount starts from \<open>useState([])\<close>.
\<close>

definition rerender :: "app_state \<Rightarrow> app_state" where
  "rerender s = (if showsInterestSelector s then s else s\<lparr>picked := []\<rparr>)"

definition fire :: "app_state \<Rightarrow> event \<Rightarrow> app_state option" where
  "fire s e = (if enabled s e then Some (rerender (handler e s)) else None)"

fun run :: "app_state \<Rightarrow> event list \<Rightarrow> app_state option" where
  "run s [] = Some s"
| "run s (e # es) = (case fire s e of None \<Rightarrow> None | Some s' \<Rightarrow> run s' es)"

text \<open>The invariant that carries the bound through every transition.\<close>

definition flow_inv :: "app_state \<Rightarrow> bool" where
  "flow_inv s =
     (length (picked s) \<le> 8 \<and>
      (if step s = 3 then 2 \<le> length (selectedTools s) \<and> length (selectedTools s) \<le> 8
       else step s = 4 \<or> step s < 3))"

section \<open>Progress of a phase-based roadmap (RoadmapDetail, phases view)\<close>

text \<open>
  \<open>Math.round\<close> of an exact value: the nearest integer, halves upwards.
\<close>

definition Math_round :: "rat \<Rightarrow> int" where
  "Math_round x = \<lfloor>x + 1 / 2\<rfloor>"


definition percentage :: "(rat \<Rightarrow> rat) \<Rightarrow> nat \<Rightarrow> nat \<Rightarrow> int" where
  "percentage fl completedItems totalItems =
     Math_round (fl (fl (of_nat completedItems / of_nat totalItems) * 100))"

text \<open>
  The inner \<open>forEach\<close>: \<open>totalItems++; if (obj.completed) completedItems++\<close>. The pair is
  \<open>(totalItems, completedItems)\<close>.
\<close>

fun count_items :: "json list \<Rightarrow> nat \<times> nat \<Rightarrow> js_error + nat \<times> nat" where
  "count_items [] acc = Inr acc"
| "count_items (obj # objs) (totalItems, completedItems) =
     js_bind (js_get obj ''completed'')
       (\<lambda>c. count_items objs
              (Suc totalItems, if truthy c then Suc completedItems else completedItems))"

text \<open>\<open>(v || []).forEach(...)\<close> over checklist items: only an array has \<open>forEach\<close>.\<close>

definition forEach_items :: "json \<Rightarrow> nat \<times> nat \<Rightarrow> js_error + nat \<times> nat" where
  "forEach_items v acc =
     (case js_or v (JArr []) of JArr objs \<Rightarrow> count_items objs acc | _ \<Rightarrow> Inl TypeError)"

definition count_phase :: "json \<Rightarrow> nat \<times> nat \<Rightarrow> js_error + nat \<times> nat" where
  "count_phase phase acc =
     js_bind (js_get phase ''learning_objectives'') (\<lambda>los.
     js_bind (forEach_items los acc) (\<lambda>acc1.
     js_bind (js_get phase ''milestones'') (\<lambda>mss.
     forEach_items mss acc1)))"

fun count_phases :: "json list \<Rightarrow> nat \<times> nat \<Rightarrow> js_error + nat \<times> nat" where
  "count_phases [] acc = Inr acc"
| "count_phases (phase # phases) acc =
     js_bind (count_phase phase acc) (\<lambda>acc1. count_phases phases acc1)"

definition forEach_phases :: "json \<Rightarrow> js_error + nat \<times> nat" where
  "forEach_phases v =
     (case v of JArr phases \<Rightarrow> count_phases phases (0, 0) | _ \<Rightarrow> Inl TypeError)"

definition result_percentage :: "(rat \<Rightarrow> rat) \<Rightarrow> nat \<times> nat \<Rightarrow> int" where
  "result_percentage fl acc =
     (case acc of (totalItems, completedItems) \<Rightarrow>
        if totalItems > 0 then percentage fl completedItems totalItems else 0)"

text \<open>
  \<open>calculateProgress\<close> reads the component state \<open>roadmap\<close> (which is \<open>null\<close> before the
  first fetch), here the argument \<open>roadmapState\<close>; \<open>calculateProgressFromRoadmap\<close> gets the
  roadmap as its argument.
\<close>

definition calculateProgress :: "(rat \<Rightarrow> rat) \<Rightarrow> json \<Rightarrow> js_error + int" where
  "calculateProgress fl roadmapState =
     (if \<not> truthy roadmapState then Inr 0
      else js_bind (js_get roadmapState ''phases'') (\<lambda>phases.
        if \<not> truthy phases then Inr 0
        else js_bind (forEach_phases phases) (\<lambda>acc. Inr (result_percentage fl acc))))"

definition calculateProgressFromRoadmap :: "(rat \<Rightarrow> rat) \<Rightarrow> json \<Rightarrow> js_error + int" where
  "calculateProgressFromRoadmap fl roadmapData =
     js_bind (js_get roadmapData ''phases'') (\<lambda>phases.
     js_bind (forEach_phases (js_or phases (JArr []))) (\<lambda>acc.
     Inr (result_percentage fl acc)))"

section \<open>Progress of a flat-tool roadmap (RoadmapDetail, tools view)\<close>

text \<open>What \<open>Math.round\<close> can return: an integer, or the non-finite values it passes on.\<close>

datatype jsnum = Finite int | Infinity | NaN

text \<open>
  \<open>Math.round((a / b) * 100)\<close> for two array lengths. Division by zero does not raise in
  JavaScript: \<open>0 / 0\<close> is \<open>NaN\<close> and \<open>a / 0\<close> is \<open>Infinity\<close> for \<open>a > 0\<close>, and both
  survive the multiplication and \<open>Math.round\<close>.
\<close>

definition round_ratio :: "(rat \<Rightarrow> rat) \<Rightarrow> nat \<Rightarrow> nat \<Rightarrow> jsnum" where
  "round_ratio fl a b =
     (if b = 0 then (if a = 0 then NaN else Infinity) else Finite (percentage fl a b))"

text \<open>The payload \<open>handleToggleComplete\<close> sends to \<open>updateRoadmapProgress\<close>.\<close>

record progress_data =
  completedTools :: "string list"
  progress :: jsnum
  currentTool :: json

text \<open>
  \<open>completedItems\<close> is a \<open>Set\<close> of tool names, kept here as the list of its elements in
  insertion order (which is what \<open>Array.from\<close> returns). \<open>delete\<close> removes the name,
  \<open>add\<close> appends it.
\<close>

definition toggle_name :: "string list \<Rightarrow> string \<Rightarrow> string list" where
  "toggle_name completedItems toolName =
     (if toolName \<in> set completedItems then removeAll toolName completedItems
      else completedItems @ [toolName])"

text \<open>\<open>tools[k]?.name\<close> for an index inside the array.\<close>

definition optional_name :: "json \<Rightarrow> json" where
  "optional_name t = (case t of JObj kvs \<Rightarrow> lookup kvs ''name'' | _ \<Rightarrow> JUndefined)"

text \<open>
  \<open>handleToggleComplete\<close> up to the call of \<open>updateRoadmapProgress\<close>. Reading \<open>.length\<close> of
  a missing \<open>selectedTools\<close> raises; a \<open>selectedTools\<close> that is neither missing nor an
  array is outside the model.
\<close>

definition handleToggleComplete ::
    "(rat \<Rightarrow> rat) \<Rightarrow> json \<Rightarrow> string list \<Rightarrow> string \<Rightarrow> js_error + progress_data" where
  "handleToggleComplete fl roadmapState completedItems toolName =
     (let completedArray = toggle_name completedItems toolName in
      js_bind (js_get roadmapState ''selectedTools'') (\<lambda>tools.
        case tools of
          JArr ts \<Rightarrow>
            Inr \<lparr>completedTools = completedArray,
                 progress = round_ratio fl (length completedArray) (length ts),
                 currentTool =
                   (if length completedArray < length ts
                    then optional_name (ts ! length completedArray) else JNull)\<rparr>
        | JUndefined \<Rightarrow> Inl TypeError
        | JNull \<Rightarrow> Inl TypeError
        | _ \<Rightarrow> Inl Unmodelled))"

text \<open>
  The pointer as the specification words it: the name of the first tool, in selection
  order, that is not completed, or \<open>null\<close> when every tool is.
\<close>

definition first_not_completed :: "json list \<Rightarrow> string list \<Rightarrow> json" where
  "first_not_completed ts completed =
     (case find (\<lambda>t. optional_name t \<notin> JStr ` set completed) ts of
        Some t \<Rightarrow> optional_name t | None \<Rightarrow> JNull)"

section \<open>Normalisation of a fetched roadmap (fetchRoadmap)\<close>

text \<open>Decimal text of a number, as a template literal prints \<open>${idx + 1}\<close>.\<close>

fun show_nat :: "nat \<Rightarrow> string" where
  "show_nat n =
     (if n < 10 then [char_of (48 + n)]
      else show_nat (n div 10) @ [char_of (48 + n mod 10)])"

declare show_nat.simps [simp del]

text \<open>
  \<open>v.length\<close>: arrays and strings have one, an object has it only as an own property,
  numbers and booleans have none.
\<close>

fun js_length :: "json \<Rightarrow> js_error + json" where
  "js_length JUndefined = Inl TypeError"
| "js_length JNull = Inl TypeError"
| "js_length (JArr xs) = Inr (JNum (int (length xs)))"
| "js_length (JStr s) = Inr (JNum (int (length s)))"
| "js_length (JObj kvs) = Inr (lookup kvs ''length'')"
| "js_length v = Inr JUndefined"

text \<open>
  \<open>v > 0\<close>. \<open>undefined\<close> converts to \<open>NaN\<close>, \<open>null\<close> to 0, \<open>true\<close> to 1; converting a
  string, an array or an object to a number is not modelled.
\<close>

fun js_gt0 :: "json \<Rightarrow> js_error + bool" where
  "js_gt0 (JNum n) = Inr (n > 0)"
| "js_gt0 JUndefined = Inr False"
| "js_gt0 JNull = Inr False"
| "js_gt0 (JBool b) = Inr b"
| "js_gt0 v = Inl Unmodelled"

text \<open>The receiver of \<open>.map\<close>: anything but an array has no such method.\<close>

definition array_elems :: "json \<Rightarrow> js_error + json list" where
  "array_elems v = (case v of JArr xs \<Rightarrow> Inr xs | _ \<Rightarrow> Inl TypeError)"

text \<open>\<open>xs.map((x, idx) => f(x, idx))\<close> with a callback that may throw; \<open>i\<close> is the index
  of the head.\<close>

fun js_mapM_idx :: "('a \<Rightarrow> nat \<Rightarrow> js_error + 'b) \<Rightarrow> nat \<Rightarrow> 'a list \<Rightarrow> js_error + 'b list" where
  "js_mapM_idx f i [] = Inr []"
| "js_mapM_idx f i (x # xs) =
     js_bind (f x i) (\<lambda>y. js_bind (js_mapM_idx f (Suc i) xs) (\<lambda>ys. Inr (y # ys)))"

text \<open>
  Own enumerable properties, as \<open>{...v}\<close> copies them: those of an object, the indexed
  elements of an array or a string, nothing for other values (\<open>null\<close> and \<open>undefined\<close>
  included: spreading them does not raise).
\<close>

fun spread :: "json \<Rightarrow> (string \<times> json) list" where
  "spread (JObj kvs) = kvs"
| "spread (JArr xs) = zip (map show_nat [0..<length xs]) xs"
| "spread (JStr s) = zip (map show_nat [0..<length s]) (map (\<lambda>c. JStr [c]) s)"
| "spread v = []"

text \<open>The phase synthesised for one entry of \<open>learningResources\<close>.\<close>

definition resource_phase :: "json \<Rightarrow> nat \<Rightarrow> js_error + json" where
  "resource_phase resource idx =
     js_bind (js_get resource ''phase_number'') (\<lambda>phase_number.
     js_bind (js_get resource ''toolName'') (\<lambda>toolName.
     js_bind (js_get resource ''duration_weeks'') (\<lambda>duration_weeks.
     js_bind (js_get resource ''tools_covered'') (\<lambda>tools_covered.
     js_bind (js_get resource ''learning_objectives'') (\<lambda>learning_objectives.
     js_bind (js_get resource ''milestones'') (\<lambda>milestones.
     Inr (JObj
       [(''id'', JStr (''phase-'' @ show_nat (idx + 1))),
        (''phase_number'', js_or phase_number (JNum (int idx + 1))),
        (''title'', js_or toolName (JStr (''Phase '' @ show_nat (idx + 1)))),
        (''duration_weeks'', js_or duration_weeks (JNum 4)),
        (''tools_covered'', js_or tools_covered (JArr [toolName])),
        (''learning_objectives'', js_or learning_objectives (JArr [])),
        (''milestones'', js_or milestones (JArr [])),
        (''expanded'', JBool (idx = 0))])))))))"

text \<open>\<open>!roadmapData.phases || roadmapData.phases.length === 0\<close>\<close>

definition phases_missing :: "json \<Rightarrow> js_error + bool" where
  "phases_missing phases =
     (if \<not> truthy phases then Inr True
      else js_bind (js_length phases) (\<lambda>n. Inr (n = JNum 0)))"

text \<open>\<open>roadmapData.learningResources && roadmapData.learningResources.length > 0\<close>\<close>

definition has_entries :: "json \<Rightarrow> js_error + bool" where
  "has_entries learningResources =
     (if \<not> truthy learningResources then Inr False
      else js_bind (js_length learningResources) js_gt0)"

text \<open>The first block: phases are created from \<open>learningResources\<close> when there are none.\<close>

definition create_phases :: "(string \<times> json) list \<Rightarrow> js_error + (string \<times> json) list" where
  "create_phases roadmapData =
     js_bind (phases_missing (lookup roadmapData ''phases'')) (\<lambda>missing.
       if missing then
         js_bind (has_entries (lookup roadmapData ''learningResources'')) (\<lambda>present.
           if present then
             js_bind (array_elems (lookup roadmapData ''learningResources'')) (\<lambda>resources.
             js_bind (js_mapM_idx resource_phase 0 resources) (\<lambda>phases.
             Inr (AList.update ''phases'' (JArr phases) roadmapData)))
           else Inr roadmapData)
       else Inr roadmapData)"

text \<open>
  Checklist entries given as bare strings become items. The id is
  \<open>`obj-${Date.now()}-${Math.random()}`\<close> (\<open>ms-\<close> for milestones): the clock and the
  random generator are the environment, given as \<open>stamp\<close>, where \<open>stamp k\<close> is the text
  \<open>${Date.now()}-${Math.random()}\<close> evaluates to at the \<open>k\<close>-th wrapping since the page
  was loaded. The counter \<open>n\<close> is threaded through and returned.
\<close>

fun wrap_items :: "string \<Rightarrow> (nat \<Rightarrow> string) \<Rightarrow> nat \<Rightarrow> json list \<Rightarrow> json list \<times> nat" where
  "wrap_items pre stamp n [] = ([], n)"
| "wrap_items pre stamp n (JStr s # xs) =
     (case wrap_items pre stamp (Suc n) xs of
        (ys, n') \<Rightarrow>
          (JObj [(''id'', JStr (pre @ stamp n)), (''text'', JStr s), (''completed'', JBool False)]
             # ys, n'))"
| "wrap_items pre stamp n (x # xs) =
     (case wrap_items pre stamp n xs of (ys, n') \<Rightarrow> (x # ys, n'))"

text \<open>The callback of the second block, for one phase.\<close>

definition init_phase :: "(nat \<Rightarrow> string) \<Rightarrow> nat \<Rightarrow> json \<Rightarrow> js_error + json \<times> nat" where
  "init_phase stamp n phase =
     js_bind (js_get phase ''learning_objectives'') (\<lambda>los.
     js_bind (array_elems (js_or los (JArr []))) (\<lambda>objs.
     case wrap_items ''obj-'' stamp n objs of (objs', n1) \<Rightarrow>
     js_bind (js_get phase ''milestones'') (\<lambda>mss.
     js_bind (array_elems (js_or mss (JArr []))) (\<lambda>ms.
     case wrap_items ''ms-'' stamp n1 ms of (ms', n2) \<Rightarrow>
     Inr (JObj (AList.update ''milestones'' (JArr ms')
                 (AList.update ''learning_objectives'' (JArr objs') (spread phase))),
          n2)))))"

fun init_phases :: "(nat \<Rightarrow> string) \<Rightarrow> nat \<Rightarrow> json list \<Rightarrow> js_error + json list \<times> nat" where
  "init_phases stamp n [] = Inr ([], n)"
| "init_phases stamp n (phase # phases) =
     js_bind (init_phase stamp n phase) (\<lambda>(phase', n1).
     js_bind (init_phases stamp n1 phases) (\<lambda>(phases', n2).
     Inr (phase' # phases', n2)))"

text \<open>
  The normaliser: what \<open>fetchRoadmap\<close> does to \<open>result.roadmap\<close> before it calls
  \<open>setRoadmap\<close>. The roadmap comes from \<open>getRoadmapById\<close> as the object
  \<open>{id: docSnap.id, ...docSnap.data()}\<close>, so it is given by its properties. An error is an
  exception that leaves \<open>fetchRoadmap\<close> (nothing there catches it).
\<close>

definition normalizeRoadmap ::
    "(nat \<Rightarrow> string) \<Rightarrow> nat \<Rightarrow> (string \<times> json) list \<Rightarrow> js_error + (string \<times> json) list \<times> nat" where
  "normalizeRoadmap stamp n roadmapData =
     js_bind (create_phases roadmapData) (\<lambda>roadmapData1.
     js_bind (array_elems (lookup roadmapData1 ''phases'')) (\<lambda>phases.
     js_bind (init_phases stamp n phases) (\<lambda>(phases', n').
     Inr (AList.update ''phases'' (JArr phases') roadmapData1, n'))))"

text \<open>\<open>adaptRoadmapData\<close> of the roadmap adapter: defaults first, then the response's own
  properties over them.\<close>

definition adaptRoadmapData :: "json \<Rightarrow> js_error + json" where
  "adaptRoadmapData roadmapResponse =
     (if \<not> truthy roadmapResponse then Inr JNull
      else
        js_bind (js_get roadmapResponse ''estimated_weeks'') (\<lambda>estimated_weeks.
        js_bind (js_get roadmapResponse ''estimatedWeeks'') (\<lambda>estimatedWeeks.
        js_bind (js_get roadmapResponse ''learning_resources'') (\<lambda>learning_resources.
        js_bind (js_get roadmapResponse ''learningResources'') (\<lambda>learningResources.
        js_bind (js_get roadmapResponse ''project_ideas'') (\<lambda>project_ideas.
        js_bind (js_get roadmapResponse ''projectIdeas'') (\<lambda>projectIdeas.
        js_bind (js_get roadmapResponse ''career_insights'') (\<lambda>career_insights.
        js_bind (js_get roadmapResponse ''careerInsights'') (\<lambda>careerInsights.
        Inr (JObj (foldl (\<lambda>obj (k, v). AList.update k v obj)
          [(''estimatedWeeks'', js_or (js_or estimated_weeks estimatedWeeks) (JNum 0)),
           (''learningResources'', js_or (js_or learning_resources learningResources) (JArr [])),
           (''projectIdeas'', js_or (js_or project_ideas projectIdeas) (JArr [])),
           (''careerInsights'', js_or (js_or career_insights careerInsights) (JObj []))]
          (spread roadmapResponse))))))))))))"

text \<open>
  A phase as the normaliser leaves it: an object whose two checklists are arrays without
  bare strings (\<open>typeof x === 'string'\<close> is \<open>is_string\<close>).
\<close>

definition is_string :: "json \<Rightarrow> bool" where
  "is_string v = (case v of JStr s \<Rightarrow> True | _ \<Rightarrow> False)"

definition ready_phase :: "json \<Rightarrow> bool" where
  "ready_phase p =
     (case p of
        JObj kvs \<Rightarrow>
          (case (lookup kvs ''learning_objectives'', lookup kvs ''milestones'') of
             (JArr objs, JArr ms) \<Rightarrow>
               list_all (\<lambda>x. \<not> is_string x) objs \<and> list_all (\<lambda>x. \<not> is_string x) ms
           | _ \<Rightarrow> False)
      | _ \<Rightarrow> False)"

section \<open>Toggling checklist items (toggleObjective, toggleMilestone)\<close>

text \<open>
  \<open>a === b\<close>. Primitive values are equal when they are the same value; two arrays or
  objects are equal only when they are the same object, which this value model cannot
  tell.
\<close>

definition is_prim :: "json \<Rightarrow> bool" where
  "is_prim v = (case v of JArr xs \<Rightarrow> False | JObj kvs \<Rightarrow> False | _ \<Rightarrow> True)"

definition strict_eq :: "json \<Rightarrow> json \<Rightarrow> js_error + bool" where
  "strict_eq a b = (if \<not> is_prim a \<and> \<not> is_prim b then Inl Unmodelled else Inr (a = b))"

fun js_mapM :: "('a \<Rightarrow> js_error + 'b) \<Rightarrow> 'a list \<Rightarrow> js_error + 'b list" where
  "js_mapM f [] = Inr []"
| "js_mapM f (x # xs) = js_bind (f x) (\<lambda>y. js_bind (js_mapM f xs) (\<lambda>ys. Inr (y # ys)))"

text \<open>\<open>v.map(f)\<close>\<close>

definition js_map :: "(json \<Rightarrow> js_error + json) \<Rightarrow> json \<Rightarrow> js_error + json" where
  "js_map f v = js_bind (array_elems v) (\<lambda>xs. js_bind (js_mapM f xs) (\<lambda>ys. Inr (JArr ys)))"

text \<open>\<open>obj => obj.id === itemId ? { ...obj, completed: !obj.completed } : obj\<close>\<close>

definition toggle_completed :: "json \<Rightarrow> json \<Rightarrow> js_error + json" where
  "toggle_completed itemId obj =
     js_bind (js_get obj ''id'') (\<lambda>oid.
     js_bind (strict_eq oid itemId) (\<lambda>hit.
       if hit then
         js_bind (js_get obj ''completed'') (\<lambda>c.
         Inr (JObj (AList.update ''completed'' (JBool (\<not> truthy c)) (spread obj))))
       else Inr obj))"

text \<open>
  The callback both handlers map over \<open>roadmap.phases\<close>; \<open>checklist\<close> is the property
  they rewrite, \<open>learning_objectives\<close> in one and \<open>milestones\<close> in the other.
\<close>

definition toggle_in_phase :: "string \<Rightarrow> json \<Rightarrow> json \<Rightarrow> json \<Rightarrow> js_error + json" where
  "toggle_in_phase checklist phaseId itemId phase =
     js_bind (js_get phase ''id'') (\<lambda>pid.
     js_bind (strict_eq pid phaseId) (\<lambda>hit.
       if hit then
         js_bind (js_get phase checklist) (\<lambda>items.
         js_bind (js_map (toggle_completed itemId) items) (\<lambda>items'.
         Inr (JObj (AList.update checklist items' (spread phase)))))
       else Inr phase))"

text \<open>
  The two handlers up to \<open>setRoadmap(updatedRoadmap)\<close>; the result is
  \<open>updatedRoadmap\<close>. \<open>roadmapState\<close> is the component state \<open>roadmap\<close>.
\<close>

definition toggleObjective :: "json \<Rightarrow> json \<Rightarrow> json \<Rightarrow> js_error + json" where
  "toggleObjective roadmapState phaseId objectiveId =
     js_bind (js_get roadmapState ''phases'') (\<lambda>phases.
     js_bind (js_map (toggle_in_phase ''learning_objectives'' phaseId objectiveId) phases)
       (\<lambda>phases'.
     Inr (JObj (AList.update ''phases'' phases' (spread roadmapState)))))"

definition toggleMilestone :: "json \<Rightarrow> json \<Rightarrow> json \<Rightarrow> js_error + json" where
  "toggleMilestone roadmapState phaseId milestoneId =
     js_bind (js_get roadmapState ''phases'') (\<lambda>phases.
     js_bind (js_map (toggle_in_phase ''milestones'' phaseId milestoneId) phases)
       (\<lambda>phases'.
     Inr (JObj (AList.update ''phases'' phases' (spread roadmapState)))))"

text \<open>
  The specification's \<open>toggleChecklistItem(roadmap, phaseId, itemId, kind)\<close>: the kind
  selects the handler.
\<close>

datatype kind = Objective | Milestone

fun checklist_of :: "kind \<Rightarrow> string" where
  "checklist_of Objective = ''learning_objectives''"
| "checklist_of Milestone = ''milestones''"

fun toggleChecklistItem :: "kind \<Rightarrow> json \<Rightarrow> json \<Rightarrow> json \<Rightarrow> js_error + json" where
  "toggleChecklistItem Objective r phaseId itemId = toggleObjective r phaseId itemId"
| "toggleChecklistItem Milestone r phaseId itemId = toggleMilestone r phaseId itemId"

text \<open>
  A roadmap in the shape of the data model: an object whose \<open>phases\<close> is an array of
  phase objects, each with its two checklists as arrays of item objects, each item with a
  boolean \<open>completed\<close>. Identifiers may be any value, present or not.
\<close>

definition is_item :: "json \<Rightarrow> bool" where
  "is_item v =
     (case v of
        JObj kvs \<Rightarrow> (case lookup kvs ''completed'' of JBool b \<Rightarrow> True | _ \<Rightarrow> False)
      | _ \<Rightarrow> False)"

definition is_checklist :: "json \<Rightarrow> bool" where
  "is_checklist v = (case v of JArr xs \<Rightarrow> list_all is_item xs | _ \<Rightarrow> False)"

definition is_phase :: "json \<Rightarrow> bool" where
  "is_phase v =
     (case v of
        JObj kvs \<Rightarrow>
          is_checklist (lookup kvs ''learning_objectives'') \<and>
          is_checklist (lookup kvs ''milestones'')
      | _ \<Rightarrow> False)"

definition is_roadmap :: "json \<Rightarrow> bool" where
  "is_roadmap v =
     (case v of
        JObj kvs \<Rightarrow> (case lookup kvs ''phases'' of JArr ps \<Rightarrow> list_all is_phase ps | _ \<Rightarrow> False)
      | _ \<Rightarrow> False)"

text \<open>
  How many checklist items a pair \<open>(phaseId, itemId)\<close> matches: the items with that id in
  the given checklist of the phases with that id.
\<close>

definition item_matches :: "json \<Rightarrow> json list \<Rightarrow> nat" where
  "item_matches itemId items = length (filter (\<lambda>obj. lookup (spread obj) ''id'' = itemId) items)"

definition phase_matches :: "string \<Rightarrow> json \<Rightarrow> json \<Rightarrow> json \<Rightarrow> nat" where
  "phase_matches checklist phaseId itemId phase =
     (if lookup (spread phase) ''id'' = phaseId
      then (case lookup (spread phase) checklist of
              JArr items \<Rightarrow> item_matches itemId items | _ \<Rightarrow> 0)
      else 0)"

definition matches :: "string \<Rightarrow> json \<Rightarrow> json \<Rightarrow> json list \<Rightarrow> nat" where
  "matches checklist phaseId itemId phases =
     sum_list (map (phase_matches checklist phaseId itemId) phases)"

text \<open>The handlers without their error cases, for roadmaps in the shape above.\<close>

definition flip_item :: "json \<Rightarrow> json \<Rightarrow> json" where
  "flip_item itemId obj =
     (if lookup (spread obj) ''id'' = itemId
      then JObj (AList.update ''completed''
                  (JBool (\<not> truthy (lookup (spread obj) ''completed''))) (spread obj))
      else obj)"

definition flip_phase :: "string \<Rightarrow> json \<Rightarrow> json \<Rightarrow> json \<Rightarrow> json" where
  "flip_phase checklist phaseId itemId phase =
     (if lookup (spread phase) ''id'' = phaseId
      then (case lookup (spread phase) checklist of
              JArr items \<Rightarrow>
                JObj (AList.update checklist (JArr (map (flip_item itemId) items)) (spread phase))
            | _ \<Rightarrow> phase)
      else phase)"

text \<open>A small roadmap in that shape: two phases, one of them with one item done.\<close>

definition sample_phases :: "json list" where
  "sample_phases =
     [JObj [(''id'', JStr ''phase-1''), (''title'', JStr ''Git''),
            (''learning_objectives'',
               JArr [JObj [(''id'', JStr ''obj-a''), (''text'', JStr ''Branching''),
                           (''completed'', JBool True)],
                     JObj [(''id'', JStr ''obj-b''), (''text'', JStr ''Rebasing''),
                           (''completed'', JBool False)]]),
            (''milestones'',
               JArr [JObj [(''id'', JStr ''ms-a''), (''text'', JStr ''First pull request''),
                           (''completed'', JBool False)]]),
            (''expanded'', JBool True)],
      JObj [(''id'', JStr ''phase-2''), (''title'', JStr ''Docker''),
            (''learning_objectives'',
               JArr [JObj [(''id'', JStr ''obj-c''), (''text'', JStr ''Images''),
                           (''completed'', JBool False)]]),
            (''milestones'', JArr []),
            (''expanded'', JBool False)]]"

definition sample_roadmap :: "(string \<times> json) list" where
  "sample_roadmap =
     [(''id'', JStr ''r1''), (''status'', JStr ''active''), (''progress'', JNum 25),
      (''phases'', JArr sample_phases)]"

text \<open>
  The shape the handlers need in order not to raise: as above, but an item is any object,
  with or without \<open>completed\<close>. The generator's milestones, objects with \<open>name\<close> and
  \<open>tasks\<close>, are of this shape; the normaliser passes them through as they are.
\<close>

definition is_object :: "json \<Rightarrow> bool" where
  "is_object v = (case v of JObj kvs \<Rightarrow> True | _ \<Rightarrow> False)"

definition is_object_list :: "json \<Rightarrow> bool" where
  "is_object_list v = (case v of JArr xs \<Rightarrow> list_all is_object xs | _ \<Rightarrow> False)"

definition is_object_phase :: "json \<Rightarrow> bool" where
  "is_object_phase v =
     (case v of
        JObj kvs \<Rightarrow>
          is_object_list (lookup kvs ''learning_objectives'') \<and>
          is_object_list (lookup kvs ''milestones'')
      | _ \<Rightarrow> False)"

definition is_object_roadmap :: "json \<Rightarrow> bool" where
  "is_object_roadmap v =
     (case v of
        JObj kvs \<Rightarrow>
          (case lookup kvs ''phases'' of JArr ps \<Rightarrow> list_all is_object_phase ps | _ \<Rightarrow> False)
      | _ \<Rightarrow> False)"

text \<open>
  A roadmap with the \<open>completed\<close> of every matched item replaced by its truth value:
  \<open>false\<close> where it was missing or falsy, \<open>true\<close> where it was truthy. Nothing else is
  touched.
\<close>

definition settle_item :: "json \<Rightarrow> json \<Rightarrow> json" where
  "settle_item itemId obj =
     (if lookup (spread obj) ''id'' = itemId
      then JObj (AList.update ''completed''
                  (JBool (truthy (lookup (spread obj) ''completed''))) (spread obj))
      else obj)"

definition settle_phase :: "string \<Rightarrow> json \<Rightarrow> json \<Rightarrow> json \<Rightarrow> json" where
  "settle_phase checklist phaseId itemId phase =
     (if lookup (spread phase) ''id'' = phaseId
      then (case lookup (spread phase) checklist of
              JArr items \<Rightarrow>
                JObj (AList.update checklist (JArr (map (settle_item itemId) items)) (spread phase))
            | _ \<Rightarrow> phase)
      else phase)"

definition settle_roadmap :: "kind \<Rightarrow> json \<Rightarrow> json \<Rightarrow> json \<Rightarrow> json" where
  "settle_roadmap kind phaseId itemId r =
     (case lookup (spread r) ''phases'' of
        JArr ps \<Rightarrow>
          JObj (AList.update ''phases''
                 (JArr (map (settle_phase (checklist_of kind) phaseId itemId) ps)) (spread r))
      | _ \<Rightarrow> r)"

text \<open>
  A saved roadmap as the generator shapes it, with one phase holding the given milestone,
  and a milestone of the generator: no \<open>id\<close>, no \<open>completed\<close>.
\<close>

definition generated_roadmap :: "json \<Rightarrow> (string \<times> json) list" where
  "generated_roadmap milestone =
     [(''id'', JStr ''r2''), (''status'', JStr ''active''), (''progress'', JNum 0),
      (''phases'',
         JArr [JObj [(''id'', JStr ''phase-1''), (''title'', JStr ''Git''),
                     (''learning_objectives'', JArr []),
                     (''milestones'', JArr [milestone])]])]"

definition generated_milestone :: "(string \<times> json) list" where
  "generated_milestone =
     [(''name'', JStr ''First pull request''),
      (''tasks'', JArr [JStr ''Fork the repository'', JStr ''Open the pull request''])]"

section \<open>Listing a user's roadmaps (roadmapService.getUserRoadmaps)\<close>

text \<open>
  A stored roadmap as \<open>getUserRoadmaps\<close> handles it, \<open>{id: doc.id, ...doc.data()}\<close>: the
  document id, the owner, \<open>createdAt\<close> (\<open>None\<close> when the field is missing or \<open>null\<close>),
  and the other fields as \<open>data\<close>. \<open>createdAt\<close> is the store's timestamp, written by
  \<open>serverTimestamp()\<close>: whole seconds and the nanoseconds within the second.
\<close>

record timestamp =
  seconds :: int
  nanoseconds :: int

record roadmap_doc =
  doc_id :: string
  userId :: string
  createdAt :: "timestamp option"
  data :: "(string \<times> json) list"

text \<open>
  The store is outside the repository. A query is \<open>where('userId', '==', uid)\<close> with or
  without \<open>orderBy('createdAt', 'desc')\<close>; \<open>getDocs\<close> answers with the documents of the
  snapshot or rejects with an error carrying a message.
\<close>

datatype query = Query string bool

datatype store_error = StoreError string

fun message :: "store_error \<Rightarrow> string" where
  "message (StoreError m) = m"

datatype list_result = Success "roadmap_doc list" | Failure string "roadmap_doc list"

text \<open>\<open>a.createdAt?.seconds || 0\<close>\<close>

definition createdAt_seconds :: "roadmap_doc \<Rightarrow> int" where
  "createdAt_seconds a = (case createdAt a of None \<Rightarrow> 0 | Some t \<Rightarrow> seconds t)"

text \<open>The comparator given to \<open>roadmaps.sort\<close>: \<open>bTime - aTime\<close>.\<close>

definition compare_createdAt :: "roadmap_doc \<Rightarrow> roadmap_doc \<Rightarrow> int" where
  "compare_createdAt a b = createdAt_seconds b - createdAt_seconds a"

text \<open>
  \<open>Array.prototype.sort\<close> with a comparator: the sort is stable, and for a comparator that
  is a consistent order, as the one above, the result is the stable sorted arrangement,
  computed here by insertion.
\<close>

fun insert_by :: "('a \<Rightarrow> 'a \<Rightarrow> int) \<Rightarrow> 'a \<Rightarrow> 'a list \<Rightarrow> 'a list" where
  "insert_by cmp x [] = [x]"
| "insert_by cmp x (y # ys) = (if cmp x y \<le> 0 then x # y # ys else y # insert_by cmp x ys)"

definition js_sort :: "('a \<Rightarrow> 'a \<Rightarrow> int) \<Rightarrow> 'a list \<Rightarrow> 'a list" where
  "js_sort cmp xs = foldr (insert_by cmp) xs []"

text \<open>
  \<open>getUserRoadmaps\<close>: the ordered query first; if \<open>getDocs\<close> rejects it, the query
  without \<open>orderBy\<close>; the documents are sorted in either case. An error of the second
  query reaches the outer \<open>catch\<close>.
\<close>

definition getUserRoadmaps ::
    "(query \<Rightarrow> store_error + roadmap_doc list) \<Rightarrow> string \<Rightarrow> list_result" where
  "getUserRoadmaps getDocs uid =
     (case (case getDocs (Query uid True) of
              Inr querySnapshot \<Rightarrow> Inr querySnapshot
            | Inl indexError \<Rightarrow> getDocs (Query uid False)) of
        Inr querySnapshot \<Rightarrow> Success (js_sort compare_createdAt querySnapshot)
      | Inl e \<Rightarrow> Failure (message e) [])"

text \<open>
  Two orders on a listing. \<open>sorted_by_createdAt\<close> is the order of the specification and of
  \<open>orderBy('createdAt', 'desc')\<close>: newest first by the whole timestamp, seconds and then
  nanoseconds (a document without \<open>createdAt\<close> counts as time 0, as in the comparator).
  \<open>sorted_by_seconds\<close> looks at the seconds only, which is all the comparator reads.
\<close>

definition createdAt_nanoseconds :: "roadmap_doc \<Rightarrow> int" where
  "createdAt_nanoseconds a = (case createdAt a of None \<Rightarrow> 0 | Some t \<Rightarrow> nanoseconds t)"

definition newer_or_same :: "roadmap_doc \<Rightarrow> roadmap_doc \<Rightarrow> bool" where
  "newer_or_same a b =
     (createdAt_seconds a > createdAt_seconds b \<or>
      (createdAt_seconds a = createdAt_seconds b \<and>
       createdAt_nanoseconds a \<ge> createdAt_nanoseconds b))"

definition sorted_by_createdAt :: "roadmap_doc list \<Rightarrow> bool" where
  "sorted_by_createdAt rs = sorted_wrt newer_or_same rs"

definition sorted_by_seconds :: "roadmap_doc list \<Rightarrow> bool" where
  "sorted_by_seconds rs = sorted_wrt (\<lambda>a b. createdAt_seconds a \<ge> createdAt_seconds b) rs"

text \<open>
  A store that holds the given documents, answers the query without \<open>orderBy\<close> in the
  order it holds them, and has no index for the ordered query. Two sets of documents:
  some of two users, and two roadmaps of one user saved within the same second, the
  older one first in the store.
\<close>

definition store_without_index :: "roadmap_doc list \<Rightarrow> query \<Rightarrow> store_error + roadmap_doc list" where
  "store_without_index docs q =
     (case q of Query uid ordered \<Rightarrow>
        if ordered then Inl (StoreError ''The query requires an index'')
        else Inr (filter (\<lambda>d. userId d = uid) docs))"

definition sample_docs :: "roadmap_doc list" where
  "sample_docs =
     [\<lparr>doc_id = ''a'', userId = ''u1'',
        createdAt = Some \<lparr>seconds = 100, nanoseconds = 0\<rparr>, data = []\<rparr>,
      \<lparr>doc_id = ''b'', userId = ''u1'',
        createdAt = Some \<lparr>seconds = 300, nanoseconds = 0\<rparr>, data = []\<rparr>,
      \<lparr>doc_id = ''c'', userId = ''u2'',
        createdAt = Some \<lparr>seconds = 200, nanoseconds = 0\<rparr>, data = []\<rparr>,
      \<lparr>doc_id = ''d'', userId = ''u1'', createdAt = None, data = []\<rparr>]"

definition same_second_docs :: "roadmap_doc list" where
  "same_second_docs =
     [\<lparr>doc_id = ''older'', userId = ''u1'',
        createdAt = Some \<lparr>seconds = 1700000000, nanoseconds = 100000000\<rparr>, data = []\<rparr>,
      \<lparr>doc_id = ''newer'', userId = ''u1'',
        createdAt = Some \<lparr>seconds = 1700000000, nanoseconds = 900000000\<rparr>, data = []\<rparr>]"

section \<open>Properties of the step flow\<close>

lemma toggleTool_length: "length prev \<le> 8 \<Longrightarrow> length (toggleTool prev t) \<le> 8"
  unfolding toggleTool_def
  by (auto split: option.splits intro: le_trans [OF length_filter_le])

lemma flow_inv_initial: "flow_inv initial"
  by (simp add: flow_inv_def initial_def)

lemma flow_inv_fire:
  assumes "flow_inv s" and "fire s e = Some s'"
  shows "flow_inv s'"
proof -
  from assms(2) have en: "enabled s e" and s': "s' = rerender (handler e s)"
    by (auto simp: fire_def split: if_splits)
  show ?thesis
  proof (cases e)
    case (ToggleTool t)
    with assms(1) en s' toggleTool_length [of "picked s" t] show ?thesis
      by (auto simp: flow_inv_def rerender_def showsInterestSelector_def)
  next
    case Generate
    with assms(1) en s' show ?thesis
      by (auto simp: flow_inv_def rerender_def showsInterestSelector_def handleGenerate_def
          handleToolsSelected_def)
  next
    case Back
    with assms(1) en s' show ?thesis
      by (auto simp: flow_inv_def rerender_def showsInterestSelector_def
          showsTimeCommitment_def handleBack_def)
  next
    case (GenerationSucceeded r)
    with assms(1) en s' show ?thesis
      by (auto simp: flow_inv_def rerender_def showsInterestSelector_def generationSucceeded_def)
  next
    case (GenerationFailed m)
    with assms(1) en s' show ?thesis
      by (auto simp: flow_inv_def rerender_def showsInterestSelector_def generationFailed_def
          split: if_splits)
  next
    case (PreferencesSet p)
    with assms(1) en s' show ?thesis
      by (auto simp: flow_inv_def rerender_def showsInterestSelector_def
          showsTimeCommitment_def handlePreferencesSet_def)
  next
    case (ResumeComplete r p)
    with assms(1) en s' show ?thesis
      by (auto simp: flow_inv_def rerender_def showsInterestSelector_def
          showsResumeUpload_def handleResumeComplete_def)
  next
    case StartOver
    with assms(1) en s' show ?thesis
      by (auto simp: flow_inv_def rerender_def showsInterestSelector_def handleStartOver_def)
  next
    case DismissError
    with assms(1) en s' show ?thesis
      by (auto simp: flow_inv_def rerender_def showsInterestSelector_def split: if_splits)
  qed
qed

lemma flow_inv_run: "flow_inv s \<Longrightarrow> run s es = Some s' \<Longrightarrow> flow_inv s'"
proof (induction es arbitrary: s)
  case Nil
  then show ?case by simp
next
  case (Cons e es)
  then show ?case
    by (auto split: option.splits dest: flow_inv_fire)
qed

text \<open>
  C10. In every state the step flow can reach from its initial state, being at step 3
  (SetPreferences) implies that between 2 and 8 tools are selected.
\<close>

theorem step3_tool_count:
  "run initial es = Some s \<Longrightarrow> step s = 3 \<Longrightarrow>
     2 \<le> length (selectedTools s) \<and> length (selectedTools s) \<le> 8"
  using flow_inv_run [OF flow_inv_initial, of es s]
  by (simp add: flow_inv_def)


theorem step3_tool_count_witness:
  "run initial
     [ResumeComplete (JStr ''cv'') (JObj [(''experience_level'', JStr ''Junior'')]),
      ToggleTool \<lparr>name = ''Git'', domain = Some ''DevOps''\<rparr>,
      ToggleTool \<lparr>name = ''Docker'', domain = Some ''DevOps''\<rparr>,
      Generate]
   = Some \<lparr>step = 3, resumeData = JStr ''cv'',
       profile = JObj [(''experience_level'', JStr ''Junior'')],
       selectedTools = [\<lparr>name = ''Git'', domain = Some ''DevOps''\<rparr>,
                        \<lparr>name = ''Docker'', domain = Some ''DevOps''\<rparr>],
       preferences = JObj [], roadmap = JNull, generatingRoadmap = False, error = JNull,
       picked = []\<rparr>
   \<and> 2 \<le> length [\<lparr>name = ''Git'', domain = Some ''DevOps''\<rparr>,
                   \<lparr>name = ''Docker'', domain = Some ''DevOps''\<rparr>]
   \<and> length [\<lparr>name = ''Git'', domain = Some ''DevOps''\<rparr>,
              \<lparr>name = ''Docker'', domain = Some ''DevOps''\<rparr>] \<le> 8"
proof -
  let ?es = "[ResumeComplete (JStr ''cv'') (JObj [(''experience_level'', JStr ''Junior'')]),
      ToggleTool \<lparr>name = ''Git'', domain = Some ''DevOps''\<rparr>,
      ToggleTool \<lparr>name = ''Docker'', domain = Some ''DevOps''\<rparr>,
      Generate]"
  let ?s = "\<lparr>step = 3, resumeData = JStr ''cv'',
       profile = JObj [(''experience_level'', JStr ''Junior'')],
       selectedTools = [\<lparr>name = ''Git'', domain = Some ''DevOps''\<rparr>,
                        \<lparr>name = ''Docker'', domain = Some ''DevOps''\<rparr>],
       preferences = JObj [], roadmap = JNull, generatingRoadmap = False, error = JNull,
       picked = []\<rparr>"
  have r: "run initial ?es = Some ?s"
    by (simp add: initial_def fire_def rerender_def showsResumeUpload_def
        showsInterestSelector_def handleResumeComplete_def toggleTool_def toolId_def
        handleGenerate_def handleToolsSelected_def)
  have "step ?s = 3" by simp
  from step3_tool_count [OF r this] r show ?thesis by simp
qed

section \<open>Properties of the progress computations\<close>









lemma calculateProgressFromRoadmap_scenario:
  "calculateProgressFromRoadmap (\<lambda>x. x) (JObj sample_roadmap) = Inr 25"
  by code_simp

lemma calculateProgressFromRoadmap_no_items:
  "calculateProgressFromRoadmap fl (JObj [(''phases'', JArr [])]) = Inr 0"
  "calculateProgressFromRoadmap fl (JObj []) = Inr 0"
  by (simp_all add: calculateProgressFromRoadmap_def lookup_def js_or_def forEach_phases_def
      result_percentage_def)







text \<open>
  The handler itself has no guard on the divisor: called with an empty \<open>selectedTools\<close>
  it would store \<open>Infinity\<close>. No checkbox is rendered for an empty selection, so the
  handler is not called there.
\<close>

lemma flat_progress_empty_selection:
  "handleToggleComplete fl (JObj [(''selectedTools'', JArr [])]) [] ''Git''
     = Inr \<lparr>completedTools = [''Git''], progress = Infinity, currentTool = JNull\<rparr>"
  by (simp add: handleToggleComplete_def toggle_name_def lookup_def round_ratio_def)

text \<open>
  C2. On every roadmap object the computation used for display, \<open>calculateProgress\<close>,
  and the one used when saving, \<open>calculateProgressFromRoadmap\<close>, agree: they return the
  same percentage or raise the same error.
\<close>

theorem calculateProgress_agrees:
  "calculateProgress fl (JObj kvs) = calculateProgressFromRoadmap fl (JObj kvs)"
  by (simp add: calculateProgress_def calculateProgressFromRoadmap_def js_or_def
      forEach_phases_def result_percentage_def)

text \<open>
  C3. After a toggle the stored \<open>currentTool\<close> is the first tool, in selection order,
  that is not completed. The code takes the tool at the index given by the number of
  completed tools instead: with Git, Docker and Kubernetes selected and nothing done,
  ticking Docker stores Docker, the tool just completed, while the first tool not yet
  completed is Git.
\<close>

theorem currentTool_out_of_order:
  "map_sum id currentTool
     (handleToggleComplete fl
        (JObj [(''selectedTools'',
           JArr [JObj [(''name'', JStr ''Git'')], JObj [(''name'', JStr ''Docker'')],
                 JObj [(''name'', JStr ''Kubernetes'')]])])
        [] ''Docker'')
     = Inr (JStr ''Docker'')
   \<and> first_not_completed
       [JObj [(''name'', JStr ''Git'')], JObj [(''name'', JStr ''Docker'')],
        JObj [(''name'', JStr ''Kubernetes'')]]
       (toggle_name [] ''Docker'')
     = JStr ''Git''"
  by (simp add: handleToggleComplete_def toggle_name_def lookup_def optional_name_def
      first_not_completed_def)

section \<open>Properties of the normaliser\<close>

lemma wrap_items_no_strings:
  "wrap_items pre stamp n xs = (ys, n') \<Longrightarrow> list_all (\<lambda>x. \<not> is_string x) ys"
  by (induction pre stamp n xs arbitrary: ys n' rule: wrap_items.induct)
     (auto simp: is_string_def split: prod.splits)

lemma wrap_items_fixed:
  "list_all (\<lambda>x. \<not> is_string x) xs \<Longrightarrow> wrap_items pre stamp n xs = (xs, n)"
  by (induction pre stamp n xs rule: wrap_items.induct) (auto simp: is_string_def)

lemma lookup_update: "lookup (AList.update k v kvs) k' = (if k' = k then v else lookup kvs k')"
  by (simp add: lookup_def update_conv')

lemma update_lookup: "lookup kvs k = v \<Longrightarrow> v \<noteq> JUndefined \<Longrightarrow> AList.update k v kvs = kvs"
  by (rule update_triv) (auto simp: lookup_def split: option.splits)

lemma init_phase_ready:
  assumes "init_phase stamp n p = Inr (p', n')"
  shows "ready_phase p'"
proof -
  from assms obtain los where los: "js_get p ''learning_objectives'' = Inr los"
    unfolding init_phase_def by (cases "js_get p ''learning_objectives''") auto
  from assms los obtain objs where objs: "array_elems (js_or los (JArr [])) = Inr objs"
    unfolding init_phase_def by (cases "array_elems (js_or los (JArr []))") auto
  obtain objs' n1 where w1: "wrap_items ''obj-'' stamp n objs = (objs', n1)"
    by (cases "wrap_items ''obj-'' stamp n objs")
  from assms los objs w1 obtain mss where mss: "js_get p ''milestones'' = Inr mss"
    unfolding init_phase_def by (cases "js_get p ''milestones''") auto
  from assms los objs w1 mss obtain ms where ms: "array_elems (js_or mss (JArr [])) = Inr ms"
    unfolding init_phase_def by (cases "array_elems (js_or mss (JArr []))") auto
  obtain ms' n2 where w2: "wrap_items ''ms-'' stamp n1 ms = (ms', n2)"
    by (cases "wrap_items ''ms-'' stamp n1 ms")
  from assms los objs w1 mss ms w2 have p': "p' = JObj (AList.update ''milestones'' (JArr ms')
                 (AList.update ''learning_objectives'' (JArr objs') (spread p)))"
    unfolding init_phase_def by simp
  from wrap_items_no_strings [OF w1] wrap_items_no_strings [OF w2] show ?thesis
    unfolding p' ready_phase_def by (simp add: lookup_update)
qed

lemma init_phase_fixed:
  assumes "ready_phase p"
  shows "init_phase stamp n p = Inr (p, n)"
proof -
  from assms obtain kvs objs ms where p: "p = JObj kvs"
    and lo: "lookup kvs ''learning_objectives'' = JArr objs"
    and mi: "lookup kvs ''milestones'' = JArr ms"
    and no: "list_all (\<lambda>x. \<not> is_string x) objs" "list_all (\<lambda>x. \<not> is_string x) ms"
    unfolding ready_phase_def by (auto split: json.splits)
  have u1: "AList.update ''learning_objectives'' (JArr objs) kvs = kvs"
    using lo by (rule update_lookup) simp
  have u2: "AList.update ''milestones'' (JArr ms) kvs = kvs"
    using mi by (rule update_lookup) simp
  show ?thesis
    unfolding init_phase_def p
    by (simp add: lo mi js_or_def array_elems_def wrap_items_fixed [OF no(1)]
        wrap_items_fixed [OF no(2)] u1 u2)
qed

lemma init_phases_ready:
  "init_phases stamp n ps = Inr (ps', n') \<Longrightarrow> list_all ready_phase ps' \<and> length ps' = length ps"
proof (induction ps arbitrary: n ps' n')
  case Nil
  then show ?case by simp
next
  case (Cons p ps)
  from Cons.prems obtain p1 n1 where h: "init_phase stamp n p = Inr (p1, n1)"
    by (cases "init_phase stamp n p") auto
  from Cons.prems h obtain ps1 n2 where t: "init_phases stamp n1 ps = Inr (ps1, n2)"
    by (cases "init_phases stamp n1 ps") auto
  from Cons.prems h t have "ps' = p1 # ps1" by simp
  with init_phase_ready [OF h] Cons.IH [OF t] show ?case by simp
qed

lemma init_phases_fixed:
  "list_all ready_phase ps \<Longrightarrow> init_phases stamp n ps = Inr (ps, n)"
  by (induction ps) (simp_all add: init_phase_fixed)

lemma js_mapM_idx_length:
  "js_mapM_idx f i xs = Inr ys \<Longrightarrow> length ys = length xs"
proof (induction xs arbitrary: i ys)
  case Nil
  then show ?case by simp
next
  case (Cons x xs)
  from Cons.prems obtain y where y: "f x i = Inr y" by (cases "f x i") auto
  from Cons.prems y obtain ys1 where t: "js_mapM_idx f (Suc i) xs = Inr ys1"
    by (cases "js_mapM_idx f (Suc i) xs") auto
  from Cons.prems y t have "ys = y # ys1" by simp
  with Cons.IH [OF t] show ?case by simp
qed

text \<open>What the first block leaves behind: either no phases were created, or a non-empty array.\<close>

lemma create_phases_cases:
  assumes "create_phases kvs = Inr kvs1"
  shows "kvs1 = kvs \<and> (phases_missing (lookup kvs ''phases'') = Inr False \<or>
            has_entries (lookup kvs ''learningResources'') = Inr False)
         \<or> (\<exists>ps. ps \<noteq> [] \<and> kvs1 = AList.update ''phases'' (JArr ps) kvs)"
proof -
  from assms obtain missing where m: "phases_missing (lookup kvs ''phases'') = Inr missing"
    unfolding create_phases_def by (cases "phases_missing (lookup kvs ''phases'')") auto
  show ?thesis
  proof (cases missing)
    case False
    with assms m show ?thesis unfolding create_phases_def by simp
  next
    case True
    from assms m True obtain present where
      pr: "has_entries (lookup kvs ''learningResources'') = Inr present"
      unfolding create_phases_def
      by (cases "has_entries (lookup kvs ''learningResources'')") auto
    show ?thesis
    proof (cases present)
      case False
      with assms m True pr show ?thesis unfolding create_phases_def by simp
    next
      case present: True
      from assms m True pr present obtain rs where
        rs: "array_elems (lookup kvs ''learningResources'') = Inr rs"
        unfolding create_phases_def
        by (cases "array_elems (lookup kvs ''learningResources'')") auto
      from assms m True pr present rs obtain ps where
        ps: "js_mapM_idx resource_phase 0 rs = Inr ps"
        unfolding create_phases_def
        by (cases "js_mapM_idx resource_phase 0 rs") auto
      from assms m True pr present rs ps have k: "kvs1 = AList.update ''phases'' (JArr ps) kvs"
        unfolding create_phases_def by simp
      from rs have lr: "lookup kvs ''learningResources'' = JArr rs"
        unfolding array_elems_def by (auto split: json.splits)
      from pr present lr have "rs \<noteq> []"
        unfolding has_entries_def by auto
      with js_mapM_idx_length [OF ps] have "ps \<noteq> []" by auto
      with k show ?thesis by blast
    qed
  qed
qed

text \<open>
  C5. Normalising a normalised roadmap changes nothing: whenever a first pass returns a
  roadmap, a second pass (at any later time, with any clock and random values) returns
  the same roadmap and wraps no further item, so no id is made a second time.
\<close>

theorem normalizeRoadmap_idempotent:
  assumes "normalizeRoadmap stamp n roadmapData = Inr (normalized, n')"
  shows "normalizeRoadmap stamp' m normalized = Inr (normalized, m)"
proof -
  from assms obtain kvs1 where c: "create_phases roadmapData = Inr kvs1"
    unfolding normalizeRoadmap_def by (cases "create_phases roadmapData") auto
  from assms c obtain ps where a: "array_elems (lookup kvs1 ''phases'') = Inr ps"
    unfolding normalizeRoadmap_def by (cases "array_elems (lookup kvs1 ''phases'')") auto
  from assms c a obtain ps' where i: "init_phases stamp n ps = Inr (ps', n')"
    and nz: "normalized = AList.update ''phases'' (JArr ps') kvs1"
    unfolding normalizeRoadmap_def by (cases "init_phases stamp n ps") auto
  from init_phases_ready [OF i] have ready: "list_all ready_phase ps'" and len: "length ps' = length ps"
    by simp_all
  from a have ph1: "lookup kvs1 ''phases'' = JArr ps"
    unfolding array_elems_def by (auto split: json.splits)
  have ph: "lookup normalized ''phases'' = JArr ps'"
    unfolding nz by (simp add: lookup_update)
  have upd: "AList.update ''phases'' (JArr ps') normalized = normalized"
    using ph by (rule update_lookup) simp
  have cp: "create_phases normalized = Inr normalized"
  proof (cases "ps' = []")
    case False
    then show ?thesis
      unfolding create_phases_def by (simp add: ph phases_missing_def)
  next
    case True
    with len have psE: "ps = []" by simp
    from create_phases_cases [OF c] psE ph1
    have same: "kvs1 = roadmapData"
      and no: "phases_missing (lookup roadmapData ''phases'') = Inr False \<or>
            has_entries (lookup roadmapData ''learningResources'') = Inr False"
      by (auto simp: lookup_update)
    from ph1 psE same have "phases_missing (lookup roadmapData ''phases'') = Inr True"
      by (simp add: phases_missing_def)
    with no have "has_entries (lookup roadmapData ''learningResources'') = Inr False" by simp
    then have "has_entries (lookup normalized ''learningResources'') = Inr False"
      unfolding nz same by (simp add: lookup_update)
    then show ?thesis
      unfolding create_phases_def by (simp add: ph True phases_missing_def)
  qed
  show ?thesis
    unfolding normalizeRoadmap_def
    by (simp add: cp ph array_elems_def init_phases_fixed [OF ready] upd)
qed

theorem normalizeRoadmap_idempotent_witness:
  "normalizeRoadmap (\<lambda>k. ''1700000000000-0.25'') 0
     [(''id'', JStr ''r1''), (''phases'', JArr []),
      (''learningResources'',
         JArr [JObj [(''toolName'', JStr ''Git''), (''duration_weeks'', JNum 2),
                     (''milestones'', JArr [JStr ''First commit''])]])]
   = Inr ([(''id'', JStr ''r1''),
           (''phases'',
              JArr [JObj [(''id'', JStr ''phase-1''), (''phase_number'', JNum 1),
                          (''title'', JStr ''Git''), (''duration_weeks'', JNum 2),
                          (''tools_covered'', JArr [JStr ''Git'']),
                          (''learning_objectives'', JArr []),
                          (''milestones'',
                             JArr [JObj [(''id'', JStr ''ms-1700000000000-0.25''),
                                         (''text'', JStr ''First commit''),
                                         (''completed'', JBool False)]]),
                          (''expanded'', JBool True)]]),
           (''learningResources'',
              JArr [JObj [(''toolName'', JStr ''Git''), (''duration_weeks'', JNum 2),
                          (''milestones'', JArr [JStr ''First commit''])]])], 1)
   \<and> normalizeRoadmap (\<lambda>k. ''1700000099999-0.75'') 7
       [(''id'', JStr ''r1''),
        (''phases'',
           JArr [JObj [(''id'', JStr ''phase-1''), (''phase_number'', JNum 1),
                       (''title'', JStr ''Git''), (''duration_weeks'', JNum 2),
                       (''tools_covered'', JArr [JStr ''Git'']),
                       (''learning_objectives'', JArr []),
                       (''milestones'',
                          JArr [JObj [(''id'', JStr ''ms-1700000000000-0.25''),
                                      (''text'', JStr ''First commit''),
                                      (''completed'', JBool False)]]),
                       (''expanded'', JBool True)]]),
        (''learningResources'',
           JArr [JObj [(''toolName'', JStr ''Git''), (''duration_weeks'', JNum 2),
                       (''milestones'', JArr [JStr ''First commit''])]])]
     = Inr ([(''id'', JStr ''r1''),
           (''phases'',
              JArr [JObj [(''id'', JStr ''phase-1''), (''phase_number'', JNum 1),
                          (''title'', JStr ''Git''), (''duration_weeks'', JNum 2),
                          (''tools_covered'', JArr [JStr ''Git'']),
                          (''learning_objectives'', JArr []),
                          (''milestones'',
                             JArr [JObj [(''id'', JStr ''ms-1700000000000-0.25''),
                                         (''text'', JStr ''First commit''),
                                         (''completed'', JBool False)]]),
                          (''expanded'', JBool True)]]),
           (''learningResources'',
              JArr [JObj [(''toolName'', JStr ''Git''), (''duration_weeks'', JNum 2),
                          (''milestones'', JArr [JStr ''First commit''])]])], 7)"
  (is "?first = Inr (?out, 1) \<and> ?second = Inr (?out, 7)")
proof -
  have h: "?first = Inr (?out, 1)" by code_simp
  from normalizeRoadmap_idempotent [OF h, of "\<lambda>k. ''1700000099999-0.75''" 7] h
  show ?thesis by simp
qed

lemma adaptRoadmapData_total: "\<exists>v. adaptRoadmapData r = Inr v"
  by (cases r) (simp_all add: adaptRoadmapData_def)

lemma normalizeRoadmap_empty_phases:
  "normalizeRoadmap stamp n [(''id'', JStr ''r1''), (''phases'', JArr [])]
     = Inr ([(''id'', JStr ''r1''), (''phases'', JArr [])], n)"
  by (simp add: normalizeRoadmap_def create_phases_def phases_missing_def has_entries_def
      lookup_def array_elems_def)

text \<open>
  C4. Normalisation of a roadmap object does not raise on missing optional fields. It
  does when the document has neither \<open>phases\<close> nor \<open>learningResources\<close>: no phases are
  created, and the second block calls \<open>.map\<close> on the missing \<open>phases\<close>.
\<close>

theorem normalizeRoadmap_without_phases:
  "normalizeRoadmap stamp n [(''id'', JStr ''r1'')] = Inl TypeError"
  by (simp add: normalizeRoadmap_def create_phases_def phases_missing_def has_entries_def
      lookup_def array_elems_def)

section \<open>Properties of the toggles\<close>

lemma js_mapM_pure:
  "list_all (\<lambda>x. f x = Inr (g x)) xs \<Longrightarrow> js_mapM f xs = Inr (map g xs)"
  by (induction xs) simp_all

lemma strict_eq_prim: "is_prim b \<Longrightarrow> strict_eq a b = Inr (a = b)"
  by (simp add: strict_eq_def)

lemma toggle_completed_item:
  "is_item obj \<Longrightarrow> is_prim itemId \<Longrightarrow> toggle_completed itemId obj = Inr (flip_item itemId obj)"
  by (cases obj) (simp_all add: is_item_def toggle_completed_def flip_item_def strict_eq_prim)

lemma flip_item_is_item: "is_item obj \<Longrightarrow> is_item (flip_item itemId obj)"
  by (cases obj) (simp_all add: is_item_def flip_item_def lookup_update)

lemma flip_item_other: "lookup (spread obj) ''id'' \<noteq> itemId \<Longrightarrow> flip_item itemId obj = obj"
  by (simp add: flip_item_def)

lemma map_flip_item_is_item:
  "list_all is_item xs \<Longrightarrow> list_all is_item (map (flip_item itemId) xs)"
  by (induction xs) (simp_all add: flip_item_is_item)

lemma map_flip_item_other:
  "item_matches itemId xs = 0 \<Longrightarrow> map (flip_item itemId) xs = xs"
  by (induction xs) (auto simp: item_matches_def flip_item_other split: if_splits)

lemma is_phase_checklist:
  assumes "is_phase (JObj kvs)"
  shows "\<exists>xs. lookup kvs (checklist_of kind) = JArr xs \<and> list_all is_item xs"
  using assms by (cases kind) (auto simp: is_phase_def is_checklist_def split: json.splits)

lemma toggle_in_phase_phase:
  assumes "is_phase phase" and "is_prim phaseId" and "is_prim itemId"
  shows "toggle_in_phase (checklist_of kind) phaseId itemId phase
           = Inr (flip_phase (checklist_of kind) phaseId itemId phase)"
proof -
  from assms(1) obtain kvs where p: "phase = JObj kvs"
    by (auto simp: is_phase_def split: json.splits)
  from is_phase_checklist [OF assms(1) [unfolded p]] obtain xs where
    xs: "lookup kvs (checklist_of kind) = JArr xs" and it: "list_all is_item xs" by blast
  have "list_all (\<lambda>x. toggle_completed itemId x = Inr (flip_item itemId x)) xs"
    using it assms(3) by (induction xs) (simp_all add: toggle_completed_item)
  then have "js_mapM (toggle_completed itemId) xs = Inr (map (flip_item itemId) xs)"
    by (rule js_mapM_pure)
  then show ?thesis
    by (simp add: p toggle_in_phase_def flip_phase_def strict_eq_prim [OF assms(2)] xs
        js_map_def array_elems_def)
qed

lemma flip_phase_is_phase:
  assumes "is_phase phase"
  shows "is_phase (flip_phase (checklist_of kind) phaseId itemId phase)"
proof -
  from assms obtain kvs where p: "phase = JObj kvs"
    by (auto simp: is_phase_def split: json.splits)
  from is_phase_checklist [OF assms [unfolded p]] obtain xs where
    xs: "lookup kvs (checklist_of kind) = JArr xs" and it: "list_all is_item xs" by blast
  from assms xs map_flip_item_is_item [OF it, of itemId] show ?thesis
    by (cases kind) (auto simp: p flip_phase_def is_phase_def is_checklist_def lookup_update)
qed

lemma flip_phase_other:
  assumes "is_phase phase" and "phase_matches (checklist_of kind) phaseId itemId phase = 0"
  shows "flip_phase (checklist_of kind) phaseId itemId phase = phase"
proof -
  from assms(1) obtain kvs where p: "phase = JObj kvs"
    by (auto simp: is_phase_def split: json.splits)
  from is_phase_checklist [OF assms(1) [unfolded p]] obtain xs where
    xs: "lookup kvs (checklist_of kind) = JArr xs" and it: "list_all is_item xs" by blast
  have u: "AList.update (checklist_of kind) (JArr xs) kvs = kvs"
    using xs by (rule update_lookup) simp
  show ?thesis
  proof (cases "lookup kvs ''id'' = phaseId")
    case False
    then show ?thesis by (simp add: p flip_phase_def)
  next
    case True
    with assms(2) have "item_matches itemId xs = 0"
      by (simp add: p phase_matches_def xs)
    then have "map (flip_item itemId) xs = xs" by (rule map_flip_item_other)
    then show ?thesis by (simp add: p flip_phase_def xs u)
  qed
qed

lemma map_flip_phase_is_phase:
  "list_all is_phase ps \<Longrightarrow>
     list_all is_phase (map (flip_phase (checklist_of kind) phaseId itemId) ps)"
  by (induction ps) (simp_all add: flip_phase_is_phase)

lemma map_flip_phase_other:
  "list_all is_phase ps \<Longrightarrow> matches (checklist_of kind) phaseId itemId ps = 0 \<Longrightarrow>
     map (flip_phase (checklist_of kind) phaseId itemId) ps = ps"
  by (induction ps) (simp_all add: matches_def flip_phase_other)

lemma toggle_roadmap:
  assumes "is_roadmap (JObj kvs)" and "lookup kvs ''phases'' = JArr ps"
    and "is_prim phaseId" and "is_prim itemId"
  shows "toggleChecklistItem kind (JObj kvs) phaseId itemId
           = Inr (JObj (AList.update ''phases''
                         (JArr (map (flip_phase (checklist_of kind) phaseId itemId) ps)) kvs))"
proof -
  from assms(1,2) have ph: "list_all is_phase ps" by (simp add: is_roadmap_def)
  have "list_all (\<lambda>p. toggle_in_phase (checklist_of kind) phaseId itemId p
                        = Inr (flip_phase (checklist_of kind) phaseId itemId p)) ps"
    using ph assms(3,4) by (induction ps) (simp_all add: toggle_in_phase_phase)
  then have "js_mapM (toggle_in_phase (checklist_of kind) phaseId itemId) ps
               = Inr (map (flip_phase (checklist_of kind) phaseId itemId) ps)"
    by (rule js_mapM_pure)
  then show ?thesis
    by (cases kind)
       (simp_all add: toggleObjective_def toggleMilestone_def assms(2) js_map_def array_elems_def)
qed

text \<open>
  C6. A toggle whose pair matches no checklist item (no phase has that id, or no item of
  the matching phases has) returns the roadmap as it was and raises nothing.
\<close>

theorem toggle_unknown_noop:
  assumes "is_roadmap (JObj kvs)" and "lookup kvs ''phases'' = JArr ps"
    and "is_prim phaseId" and "is_prim itemId"
    and "matches (checklist_of kind) phaseId itemId ps = 0"
  shows "toggleChecklistItem kind (JObj kvs) phaseId itemId = Inr (JObj kvs)"
proof -
  from assms(1,2) have ph: "list_all is_phase ps" by (simp add: is_roadmap_def)
  have u: "AList.update ''phases'' (JArr ps) kvs = kvs"
    using assms(2) by (rule update_lookup) simp
  show ?thesis
    by (simp add: toggle_roadmap [OF assms(1-4)] map_flip_phase_other [OF ph assms(5)] u)
qed

theorem toggle_unknown_noop_witness:
  "is_roadmap (JObj sample_roadmap)
   \<and> matches (checklist_of Objective) (JStr ''nonexistent-phase'') (JStr ''nonexistent-item'')
         sample_phases = 0
   \<and> toggleChecklistItem Objective (JObj sample_roadmap)
         (JStr ''nonexistent-phase'') (JStr ''nonexistent-item'') = Inr (JObj sample_roadmap)"
proof -
  have r: "is_roadmap (JObj sample_roadmap)"
    by (simp add: sample_roadmap_def sample_phases_def is_roadmap_def is_phase_def
        is_checklist_def is_item_def lookup_def)
  have l: "lookup sample_roadmap ''phases'' = JArr sample_phases"
    by (simp add: sample_roadmap_def lookup_def)
  have p: "is_prim (JStr ''nonexistent-phase'')" "is_prim (JStr ''nonexistent-item'')"
    by (simp_all add: is_prim_def)
  have m: "matches (checklist_of Objective) (JStr ''nonexistent-phase'')
             (JStr ''nonexistent-item'') sample_phases = 0"
    by (simp add: sample_phases_def matches_def phase_matches_def lookup_def)
  from toggle_unknown_noop [OF r l p m] r m show ?thesis by simp
qed

lemma sum_list_one:
  fixes f :: "'a \<Rightarrow> nat"
  shows "sum_list (map f xs) = 1 \<Longrightarrow>
    \<exists>i<length xs. f (xs ! i) = 1 \<and> (\<forall>k<length xs. k \<noteq> i \<longrightarrow> f (xs ! k) = 0)"
proof (induction xs)
  case Nil
  then show ?case by simp
next
  case (Cons x xs)
  show ?case
  proof (cases "f x = 0")
    case True
    with Cons.prems have "sum_list (map f xs) = 1" by simp
    from Cons.IH [OF this] obtain i where i: "i < length xs" "f (xs ! i) = 1"
      "\<forall>k<length xs. k \<noteq> i \<longrightarrow> f (xs ! k) = 0" by blast
    have "\<forall>k<length (x # xs). k \<noteq> Suc i \<longrightarrow> f ((x # xs) ! k) = 0"
    proof (intro allI impI)
      fix k assume k: "k < length (x # xs)" "k \<noteq> Suc i"
      show "f ((x # xs) ! k) = 0"
      proof (cases k)
        case 0
        with True show ?thesis by simp
      next
        case (Suc k')
        with k i(3) show ?thesis by simp
      qed
    qed
    with i(1,2) show ?thesis by (intro exI [of _ "Suc i"]) simp
  next
    case False
    from Cons.prems have "f x + sum_list (map f xs) = 1" by simp
    with False have fx: "f x = 1" and rest: "sum_list (map f xs) = 0" by linarith+
    from rest have z: "\<forall>y\<in>set xs. f y = 0" by simp
    have "\<forall>k<length (x # xs). k \<noteq> 0 \<longrightarrow> f ((x # xs) ! k) = 0"
    proof (intro allI impI)
      fix k assume k: "k < length (x # xs)" "k \<noteq> 0"
      then obtain k' where k': "k = Suc k'" "k' < length xs" by (cases k) auto
      with z show "f ((x # xs) ! k) = 0" by simp
    qed
    with fx show ?thesis by (intro exI [of _ 0]) simp
  qed
qed

lemma map_single_change:
  "i < length xs \<Longrightarrow> (\<forall>k<length xs. k \<noteq> i \<longrightarrow> g (xs ! k) = xs ! k) \<Longrightarrow>
     map g xs = xs[i := g (xs ! i)]"
  by (rule nth_equalityI) (auto simp: nth_list_update)

lemma item_matches_sum:
  "item_matches itemId xs
     = sum_list (map (\<lambda>obj. if lookup (spread obj) ''id'' = itemId then 1 else 0) xs)"
  by (induction xs) (simp_all add: item_matches_def)

text \<open>
  C7. When the pair matches exactly one checklist item, the toggled roadmap is the old one
  with the \<open>completed\<close> flag of that item negated and nothing else changed.
\<close>

theorem toggle_locality:
  assumes "is_roadmap (JObj kvs)" and "lookup kvs ''phases'' = JArr ps"
    and "is_prim phaseId" and "is_prim itemId"
    and "matches (checklist_of kind) phaseId itemId ps = 1"
  shows "\<exists>i j pkvs items ikvs c.
           i < length ps \<and> ps ! i = JObj pkvs \<and> lookup pkvs ''id'' = phaseId \<and>
           lookup pkvs (checklist_of kind) = JArr items \<and>
           j < length items \<and> items ! j = JObj ikvs \<and> lookup ikvs ''id'' = itemId \<and>
           lookup ikvs ''completed'' = JBool c \<and>
           toggleChecklistItem kind (JObj kvs) phaseId itemId
             = Inr (JObj (AList.update ''phases''
                 (JArr (ps[i := JObj (AList.update (checklist_of kind)
                     (JArr (items[j := JObj (AList.update ''completed'' (JBool (\<not> c)) ikvs)]))
                     pkvs)]))
                 kvs))"
proof -
  let ?ck = "checklist_of kind"
  from assms(1,2) have ph: "list_all is_phase ps" by (simp add: is_roadmap_def)
  from sum_list_one [OF assms(5) [unfolded matches_def]] obtain i where
    i: "i < length ps" and mi: "phase_matches ?ck phaseId itemId (ps ! i) = 1"
    and others: "\<forall>k<length ps. k \<noteq> i \<longrightarrow> phase_matches ?ck phaseId itemId (ps ! k) = 0"
    by blast
  from ph i have pi: "is_phase (ps ! i)" by (simp add: list_all_length)
  then obtain pkvs where p: "ps ! i = JObj pkvs"
    by (auto simp: is_phase_def split: json.splits)
  from is_phase_checklist [OF pi [unfolded p]] obtain items where
    items: "lookup pkvs ?ck = JArr items" and it: "list_all is_item items" by blast
  from mi have pid: "lookup pkvs ''id'' = phaseId" and im: "item_matches itemId items = 1"
    by (auto simp: p phase_matches_def items split: if_splits)
  from sum_list_one [OF im [unfolded item_matches_sum]] obtain j where
    j: "j < length items"
    and mj: "(if lookup (spread (items ! j)) ''id'' = itemId then 1 else 0) = (1::nat)"
    and others_j: "\<forall>k<length items. k \<noteq> j \<longrightarrow>
         (if lookup (spread (items ! k)) ''id'' = itemId then 1 else 0) = (0::nat)"
    by blast
  from it j have ij: "is_item (items ! j)" by (simp add: list_all_length)
  then obtain ikvs c where o: "items ! j = JObj ikvs" and c: "lookup ikvs ''completed'' = JBool c"
    by (auto simp: is_item_def split: json.splits)
  from mj have oid: "lookup ikvs ''id'' = itemId" by (simp add: o split: if_splits)
  have "\<forall>k<length items. k \<noteq> j \<longrightarrow> flip_item itemId (items ! k) = items ! k"
    using others_j by (auto simp: flip_item_def split: if_splits)
  from map_single_change [OF j this]
  have "map (flip_item itemId) items = items[j := flip_item itemId (items ! j)]" .
  moreover have "flip_item itemId (items ! j)
      = JObj (AList.update ''completed'' (JBool (\<not> c)) ikvs)"
    by (simp add: flip_item_def o oid c)
  ultimately have mitems: "map (flip_item itemId) items
      = items[j := JObj (AList.update ''completed'' (JBool (\<not> c)) ikvs)]"
    by (simp only:)
  have "\<forall>k<length ps. k \<noteq> i \<longrightarrow> flip_phase ?ck phaseId itemId (ps ! k) = ps ! k"
  proof (intro allI impI)
    fix k assume k: "k < length ps" "k \<noteq> i"
    with ph have "is_phase (ps ! k)" by (simp add: list_all_length)
    moreover from others k have "phase_matches ?ck phaseId itemId (ps ! k) = 0" by simp
    ultimately show "flip_phase ?ck phaseId itemId (ps ! k) = ps ! k" by (rule flip_phase_other)
  qed
  from map_single_change [OF i this]
  have "map (flip_phase ?ck phaseId itemId) ps = ps[i := flip_phase ?ck phaseId itemId (ps ! i)]" .
  moreover have "flip_phase ?ck phaseId itemId (ps ! i)
      = JObj (AList.update ?ck
           (JArr (items[j := JObj (AList.update ''completed'' (JBool (\<not> c)) ikvs)])) pkvs)"
    by (simp add: flip_phase_def p pid items mitems)
  ultimately have mps: "map (flip_phase ?ck phaseId itemId) ps
      = ps[i := JObj (AList.update ?ck
           (JArr (items[j := JObj (AList.update ''completed'' (JBool (\<not> c)) ikvs)])) pkvs)]"
    by (simp only:)
  from toggle_roadmap [OF assms(1-4), of kind] mps
  have "toggleChecklistItem kind (JObj kvs) phaseId itemId
          = Inr (JObj (AList.update ''phases''
                 (JArr (ps[i := JObj (AList.update ?ck
                     (JArr (items[j := JObj (AList.update ''completed'' (JBool (\<not> c)) ikvs)]))
                     pkvs)]))
                 kvs))"
    by simp
  with i p pid items j o oid c show ?thesis by blast
qed

theorem toggle_locality_witness:
  "is_roadmap (JObj sample_roadmap)
   \<and> matches (checklist_of Objective) (JStr ''phase-1'') (JStr ''obj-b'') sample_phases = 1
   \<and> (\<exists>i j pkvs items ikvs c.
           i < length sample_phases \<and> sample_phases ! i = JObj pkvs \<and>
           lookup pkvs ''id'' = JStr ''phase-1'' \<and>
           lookup pkvs (checklist_of Objective) = JArr items \<and>
           j < length items \<and> items ! j = JObj ikvs \<and> lookup ikvs ''id'' = JStr ''obj-b'' \<and>
           lookup ikvs ''completed'' = JBool c \<and>
           toggleChecklistItem Objective (JObj sample_roadmap) (JStr ''phase-1'') (JStr ''obj-b'')
             = Inr (JObj (AList.update ''phases''
                 (JArr (sample_phases[i := JObj (AList.update (checklist_of Objective)
                     (JArr (items[j := JObj (AList.update ''completed'' (JBool (\<not> c)) ikvs)]))
                     pkvs)]))
                 sample_roadmap)))"
proof -
  have r: "is_roadmap (JObj sample_roadmap)"
    by (simp add: sample_roadmap_def sample_phases_def is_roadmap_def is_phase_def
        is_checklist_def is_item_def lookup_def)
  have l: "lookup sample_roadmap ''phases'' = JArr sample_phases"
    by (simp add: sample_roadmap_def lookup_def)
  have p: "is_prim (JStr ''phase-1'')" "is_prim (JStr ''obj-b'')"
    by (simp_all add: is_prim_def)
  have m: "matches (checklist_of Objective) (JStr ''phase-1'') (JStr ''obj-b'') sample_phases = 1"
    by (simp add: sample_phases_def matches_def phase_matches_def item_matches_def lookup_def)
  from toggle_locality [OF r l p m] r m show ?thesis by blast
qed

lemma toggle_completed_object:
  "is_object obj \<Longrightarrow> is_prim itemId \<Longrightarrow> toggle_completed itemId obj = Inr (flip_item itemId obj)"
  by (cases obj) (simp_all add: is_object_def toggle_completed_def flip_item_def strict_eq_prim)

lemma flip_item_object: "is_object obj \<Longrightarrow> is_object (flip_item itemId obj)"
  by (cases obj) (simp_all add: is_object_def flip_item_def)

lemma flip_item_settles:
  "is_object obj \<Longrightarrow> flip_item itemId (flip_item itemId obj) = settle_item itemId obj"
  by (cases obj) (simp_all add: is_object_def flip_item_def settle_item_def lookup_update update_last)

lemma map_flip_item_settles:
  "list_all is_object xs \<Longrightarrow>
     map (flip_item itemId) (map (flip_item itemId) xs) = map (settle_item itemId) xs"
  by (induction xs) (simp_all add: flip_item_settles)

lemma map_flip_item_object:
  "list_all is_object xs \<Longrightarrow> list_all is_object (map (flip_item itemId) xs)"
  by (induction xs) (simp_all add: flip_item_object)

lemma is_object_phase_checklist:
  assumes "is_object_phase (JObj kvs)"
  shows "\<exists>xs. lookup kvs (checklist_of kind) = JArr xs \<and> list_all is_object xs"
  using assms by (cases kind) (auto simp: is_object_phase_def is_object_list_def split: json.splits)

lemma toggle_in_phase_object:
  assumes "is_object_phase phase" and "is_prim phaseId" and "is_prim itemId"
  shows "toggle_in_phase (checklist_of kind) phaseId itemId phase
           = Inr (flip_phase (checklist_of kind) phaseId itemId phase)"
proof -
  from assms(1) obtain kvs where p: "phase = JObj kvs"
    by (auto simp: is_object_phase_def split: json.splits)
  from is_object_phase_checklist [OF assms(1) [unfolded p]] obtain xs where
    xs: "lookup kvs (checklist_of kind) = JArr xs" and it: "list_all is_object xs" by blast
  have "list_all (\<lambda>x. toggle_completed itemId x = Inr (flip_item itemId x)) xs"
    using it assms(3) by (induction xs) (simp_all add: toggle_completed_object)
  then have "js_mapM (toggle_completed itemId) xs = Inr (map (flip_item itemId) xs)"
    by (rule js_mapM_pure)
  then show ?thesis
    by (simp add: p toggle_in_phase_def flip_phase_def strict_eq_prim [OF assms(2)] xs
        js_map_def array_elems_def)
qed

lemma flip_phase_object:
  assumes "is_object_phase phase"
  shows "is_object_phase (flip_phase (checklist_of kind) phaseId itemId phase)"
proof -
  from assms obtain kvs where p: "phase = JObj kvs"
    by (auto simp: is_object_phase_def split: json.splits)
  from is_object_phase_checklist [OF assms [unfolded p]] obtain xs where
    xs: "lookup kvs (checklist_of kind) = JArr xs" and it: "list_all is_object xs" by blast
  from assms xs map_flip_item_object [OF it, of itemId] show ?thesis
    by (cases kind)
       (auto simp: p flip_phase_def is_object_phase_def is_object_list_def lookup_update)
qed

lemma flip_phase_settles:
  assumes "is_object_phase phase"
  shows "flip_phase (checklist_of kind) phaseId itemId
           (flip_phase (checklist_of kind) phaseId itemId phase)
         = settle_phase (checklist_of kind) phaseId itemId phase"
proof -
  from assms obtain kvs where p: "phase = JObj kvs"
    by (auto simp: is_object_phase_def split: json.splits)
  from is_object_phase_checklist [OF assms [unfolded p]] obtain xs where
    xs: "lookup kvs (checklist_of kind) = JArr xs" and it: "list_all is_object xs" by blast
  have ne: "checklist_of kind \<noteq> ''id''" by (cases kind) simp_all
  show ?thesis
    using ne
    by (simp add: p flip_phase_def settle_phase_def xs lookup_update update_last
        map_flip_item_settles [OF it] del: map_map)
qed

lemma map_flip_phase_settles:
  "list_all is_object_phase ps \<Longrightarrow>
     map (flip_phase (checklist_of kind) phaseId itemId)
       (map (flip_phase (checklist_of kind) phaseId itemId) ps)
     = map (settle_phase (checklist_of kind) phaseId itemId) ps"
  by (induction ps) (simp_all add: flip_phase_settles)

lemma map_flip_phase_object:
  "list_all is_object_phase ps \<Longrightarrow>
     list_all is_object_phase (map (flip_phase (checklist_of kind) phaseId itemId) ps)"
  by (induction ps) (simp_all add: flip_phase_object)

lemma toggle_object_roadmap:
  assumes "is_object_roadmap (JObj kvs)" and "lookup kvs ''phases'' = JArr ps"
    and "is_prim phaseId" and "is_prim itemId"
  shows "toggleChecklistItem kind (JObj kvs) phaseId itemId
           = Inr (JObj (AList.update ''phases''
                         (JArr (map (flip_phase (checklist_of kind) phaseId itemId) ps)) kvs))"
proof -
  from assms(1,2) have ph: "list_all is_object_phase ps" by (simp add: is_object_roadmap_def)
  have "list_all (\<lambda>p. toggle_in_phase (checklist_of kind) phaseId itemId p
                        = Inr (flip_phase (checklist_of kind) phaseId itemId p)) ps"
    using ph assms(3,4) by (induction ps) (simp_all add: toggle_in_phase_object)
  then have "js_mapM (toggle_in_phase (checklist_of kind) phaseId itemId) ps
               = Inr (map (flip_phase (checklist_of kind) phaseId itemId) ps)"
    by (rule js_mapM_pure)
  then show ?thesis
    by (cases kind)
       (simp_all add: toggleObjective_def toggleMilestone_def assms(2) js_map_def array_elems_def)
qed

lemma settle_item_boolean: "is_item obj \<Longrightarrow> settle_item itemId obj = obj"
proof -
  assume "is_item obj"
  then obtain kvs b where obj: "obj = JObj kvs" and c: "lookup kvs ''completed'' = JBool b"
    by (auto simp: is_item_def split: json.splits)
  have "AList.update ''completed'' (JBool b) kvs = kvs"
    using c by (rule update_lookup) simp
  then show ?thesis by (simp add: obj c settle_item_def)
qed

lemma map_settle_item_boolean:
  "list_all is_item xs \<Longrightarrow> map (settle_item itemId) xs = xs"
  by (induction xs) (simp_all add: settle_item_boolean)

lemma settle_phase_boolean:
  assumes "is_phase phase"
  shows "settle_phase (checklist_of kind) phaseId itemId phase = phase"
proof -
  from assms obtain kvs where p: "phase = JObj kvs"
    by (auto simp: is_phase_def split: json.splits)
  from is_phase_checklist [OF assms [unfolded p]] obtain xs where
    xs: "lookup kvs (checklist_of kind) = JArr xs" and it: "list_all is_item xs" by blast
  have u: "AList.update (checklist_of kind) (JArr xs) kvs = kvs"
    using xs by (rule update_lookup) simp
  show ?thesis
    by (simp add: p settle_phase_def xs map_settle_item_boolean [OF it] u)
qed

lemma map_settle_phase_boolean:
  "list_all is_phase ps \<Longrightarrow> map (settle_phase (checklist_of kind) phaseId itemId) ps = ps"
  by (induction ps) (simp_all add: settle_phase_boolean)

text \<open>
  C8. Toggling the same pair twice on a roadmap whose phases and checklist items are
  objects gives back the roadmap with the \<open>completed\<close> of each matched item replaced by
  its truth value and nothing else changed; where \<open>completed\<close> is a boolean on every item,
  that is the roadmap itself.
\<close>

theorem toggle_twice_settles:
  assumes "is_object_roadmap (JObj kvs)" and "is_prim phaseId" and "is_prim itemId"
  shows "js_bind (toggleChecklistItem kind (JObj kvs) phaseId itemId)
           (\<lambda>r. toggleChecklistItem kind r phaseId itemId)
           = Inr (settle_roadmap kind phaseId itemId (JObj kvs))
         \<and> (is_roadmap (JObj kvs) \<longrightarrow> settle_roadmap kind phaseId itemId (JObj kvs) = JObj kvs)"
proof
  from assms(1) obtain ps where ps: "lookup kvs ''phases'' = JArr ps"
    and ph: "list_all is_object_phase ps"
    by (auto simp: is_object_roadmap_def split: json.splits)
  let ?ps' = "map (flip_phase (checklist_of kind) phaseId itemId) ps"
  let ?kvs' = "AList.update ''phases'' (JArr ?ps') kvs"
  have r1: "is_object_roadmap (JObj ?kvs')"
    using map_flip_phase_object [OF ph] by (simp add: is_object_roadmap_def lookup_update)
  have l1: "lookup ?kvs' ''phases'' = JArr ?ps'" by (simp add: lookup_update)
  show "js_bind (toggleChecklistItem kind (JObj kvs) phaseId itemId)
           (\<lambda>r. toggleChecklistItem kind r phaseId itemId)
           = Inr (settle_roadmap kind phaseId itemId (JObj kvs))"
    by (simp add: toggle_object_roadmap [OF assms(1) ps assms(2,3)]
        toggle_object_roadmap [OF r1 l1 assms(2,3)] map_flip_phase_settles [OF ph] update_last
        settle_roadmap_def ps del: map_map)
next
  show "is_roadmap (JObj kvs) \<longrightarrow> settle_roadmap kind phaseId itemId (JObj kvs) = JObj kvs"
  proof
    assume "is_roadmap (JObj kvs)"
    then obtain ps where ps: "lookup kvs ''phases'' = JArr ps" and ph: "list_all is_phase ps"
      by (auto simp: is_roadmap_def split: json.splits)
    have u: "AList.update ''phases'' (JArr ps) kvs = kvs"
      using ps by (rule update_lookup) simp
    show "settle_roadmap kind phaseId itemId (JObj kvs) = JObj kvs"
      by (simp add: settle_roadmap_def ps map_settle_phase_boolean [OF ph] u)
  qed
qed

theorem toggle_twice_settles_witness:
  "is_object_roadmap (JObj (generated_roadmap (JObj generated_milestone)))
   \<and> js_bind (toggleChecklistItem Milestone (JObj (generated_roadmap (JObj generated_milestone)))
               (JStr ''phase-1'') JUndefined)
         (\<lambda>r. toggleChecklistItem Milestone r (JStr ''phase-1'') JUndefined)
       = Inr (JObj (generated_roadmap
                     (JObj (generated_milestone @ [(''completed'', JBool False)]))))
   \<and> is_roadmap (JObj sample_roadmap)
   \<and> js_bind (toggleChecklistItem Objective (JObj sample_roadmap) (JStr ''phase-1'') (JStr ''obj-b''))
         (\<lambda>r. toggleChecklistItem Objective r (JStr ''phase-1'') (JStr ''obj-b''))
       = Inr (JObj sample_roadmap)"
proof -
  have g: "is_object_roadmap (JObj (generated_roadmap (JObj generated_milestone)))"
    by (simp add: generated_roadmap_def generated_milestone_def is_object_roadmap_def
        is_object_phase_def is_object_list_def is_object_def lookup_def)
  have gs: "settle_roadmap Milestone (JStr ''phase-1'') JUndefined
              (JObj (generated_roadmap (JObj generated_milestone)))
            = JObj (generated_roadmap
                     (JObj (generated_milestone @ [(''completed'', JBool False)])))"
    by (simp add: generated_roadmap_def generated_milestone_def settle_roadmap_def
        settle_phase_def settle_item_def lookup_def)
  have s: "is_object_roadmap (JObj sample_roadmap)"
    by (simp add: sample_roadmap_def sample_phases_def is_object_roadmap_def
        is_object_phase_def is_object_list_def is_object_def lookup_def)
  have r: "is_roadmap (JObj sample_roadmap)"
    by (simp add: sample_roadmap_def sample_phases_def is_roadmap_def is_phase_def
        is_checklist_def is_item_def lookup_def)
  have p: "is_prim (JStr ''phase-1'')" "is_prim JUndefined" "is_prim (JStr ''obj-b'')"
    by (simp_all add: is_prim_def)
  from toggle_twice_settles [OF g p(1) p(2), of Milestone] gs
  have a: "js_bind (toggleChecklistItem Milestone (JObj (generated_roadmap (JObj generated_milestone)))
               (JStr ''phase-1'') JUndefined)
         (\<lambda>r. toggleChecklistItem Milestone r (JStr ''phase-1'') JUndefined)
       = Inr (JObj (generated_roadmap
                     (JObj (generated_milestone @ [(''completed'', JBool False)]))))"
    by simp
  from toggle_twice_settles [OF s p(1) p(3), of Objective] r
  have b: "js_bind (toggleChecklistItem Objective (JObj sample_roadmap) (JStr ''phase-1'') (JStr ''obj-b''))
         (\<lambda>r. toggleChecklistItem Objective r (JStr ''phase-1'') (JStr ''obj-b''))
       = Inr (JObj sample_roadmap)"
    by simp
  from g a r b show ?thesis by blast
qed

text \<open>
  Restoring the roadmap itself fails on a milestone of the generator. Its checkbox calls
  \<open>toggleMilestone(phase.id, milestone.id)\<close> with \<open>milestone.id\<close> undefined: the first
  toggle adds \<open>completed: true\<close>, the second leaves \<open>completed: false\<close>, a property the
  roadmap did not have.
\<close>

theorem toggle_twice_generated:
  "toggleMilestone (JObj (generated_roadmap (JObj generated_milestone))) (JStr ''phase-1'') JUndefined
     = Inr (JObj (generated_roadmap
                   (JObj (generated_milestone @ [(''completed'', JBool True)]))))
   \<and> toggleMilestone
       (JObj (generated_roadmap (JObj (generated_milestone @ [(''completed'', JBool True)]))))
       (JStr ''phase-1'') JUndefined
     = Inr (JObj (generated_roadmap
                   (JObj (generated_milestone @ [(''completed'', JBool False)]))))
   \<and> generated_roadmap (JObj (generated_milestone @ [(''completed'', JBool False)]))
     \<noteq> generated_roadmap (JObj generated_milestone)"
  by (simp add: generated_roadmap_def generated_milestone_def toggleMilestone_def
      toggle_in_phase_def toggle_completed_def js_map_def array_elems_def strict_eq_def
      is_prim_def lookup_def)

section \<open>Properties of the roadmap listing\<close>

lemma mset_insert_by: "mset (insert_by cmp x ys) = add_mset x (mset ys)"
  by (induction ys) simp_all

lemma mset_js_sort: "mset (js_sort cmp xs) = mset xs"
  unfolding js_sort_def by (induction xs) (simp_all add: mset_insert_by)

lemma set_insert_by: "set (insert_by cmp x ys) = insert x (set ys)"
  by (induction ys) auto

lemma sorted_by_seconds_insert_by:
  "sorted_by_seconds ys \<Longrightarrow> sorted_by_seconds (insert_by compare_createdAt x ys)"
  unfolding sorted_by_seconds_def
  by (induction ys) (auto simp: set_insert_by compare_createdAt_def)

lemma sorted_by_seconds_js_sort: "sorted_by_seconds (js_sort compare_createdAt xs)"
proof (induction xs)
  case Nil
  show ?case by (simp add: js_sort_def sorted_by_seconds_def)
next
  case (Cons x xs)
  then show ?case
    using sorted_by_seconds_insert_by [of "js_sort compare_createdAt xs" x]
    by (simp add: js_sort_def)
qed

text \<open>
  What does hold on both paths: the listing is made of exactly the owner's documents, and
  it is newest first as far as whole seconds go.
\<close>

lemma getUserRoadmaps_by_seconds:
  assumes "getDocs (Query uid False) = Inr snap"
    and "mset snap = mset (filter (\<lambda>d. userId d = uid) docs)"
    and "getDocs (Query uid True) = Inl e \<or>
         (\<exists>snap'. getDocs (Query uid True) = Inr snap' \<and> mset snap' = mset snap)"
  shows "\<exists>rs. getUserRoadmaps getDocs uid = Success rs \<and>
              mset rs = mset (filter (\<lambda>d. userId d = uid) docs) \<and> sorted_by_seconds rs"
  using assms(3)
proof
  assume "getDocs (Query uid True) = Inl e"
  with assms(1) have "getUserRoadmaps getDocs uid = Success (js_sort compare_createdAt snap)"
    by (simp add: getUserRoadmaps_def)
  with assms(2) show ?thesis
    by (simp add: mset_js_sort sorted_by_seconds_js_sort)
next
  assume "\<exists>snap'. getDocs (Query uid True) = Inr snap' \<and> mset snap' = mset snap"
  then obtain snap' where s: "getDocs (Query uid True) = Inr snap'" "mset snap' = mset snap"
    by blast
  then have "getUserRoadmaps getDocs uid = Success (js_sort compare_createdAt snap')"
    by (simp add: getUserRoadmaps_def)
  with assms(2) s(2) show ?thesis
    by (simp add: mset_js_sort sorted_by_seconds_js_sort)
qed

text \<open>
  The path with the index keeps the server's order: a snapshot that is already newest
  first by the whole timestamp is left as it is by the client's sort.
\<close>

lemma js_sort_keeps_sorted:
  "sorted_by_createdAt xs \<Longrightarrow> js_sort compare_createdAt xs = xs"
proof (induction xs)
  case Nil
  show ?case by (simp add: js_sort_def)
next
  case (Cons x xs)
  then have xs: "js_sort compare_createdAt xs = xs"
    and x: "\<forall>y\<in>set xs. newer_or_same x y"
    by (simp_all add: sorted_by_createdAt_def)
  have "insert_by compare_createdAt x xs = x # xs"
  proof (cases xs)
    case Nil
    then show ?thesis by simp
  next
    case (Cons y ys)
    with x have "newer_or_same x y" by simp
    then have "compare_createdAt x y \<le> 0"
      by (auto simp: newer_or_same_def compare_createdAt_def)
    with Cons show ?thesis by simp
  qed
  with xs show ?case by (simp add: js_sort_def)
qed

lemma getUserRoadmaps_with_index:
  "getDocs (Query uid True) = Inr snap \<Longrightarrow> sorted_by_createdAt snap \<Longrightarrow>
     getUserRoadmaps getDocs uid = Success snap"
  by (simp add: getUserRoadmaps_def js_sort_keeps_sorted)

lemma getUserRoadmaps_sample:
  "getUserRoadmaps (store_without_index sample_docs) ''u1''
     = Success
         [\<lparr>doc_id = ''b'', userId = ''u1'',
            createdAt = Some \<lparr>seconds = 300, nanoseconds = 0\<rparr>, data = []\<rparr>,
          \<lparr>doc_id = ''a'', userId = ''u1'',
            createdAt = Some \<lparr>seconds = 100, nanoseconds = 0\<rparr>, data = []\<rparr>,
          \<lparr>doc_id = ''d'', userId = ''u1'', createdAt = None, data = []\<rparr>]"
  by (simp add: getUserRoadmaps_def store_without_index_def sample_docs_def js_sort_def
      compare_createdAt_def createdAt_seconds_def)

text \<open>
  C9. A user's listing is made of that user's roadmaps sorted descending by
  \<open>createdAt\<close>, also when the ordered query is rejected and the client sorts by the same
  key. The client's comparator reads \<open>createdAt.seconds\<close> only: with two roadmaps saved
  within the same second and no index, the call succeeds but hands the documents back in
  the store's order, the older one first.
\<close>

theorem getUserRoadmaps_same_second:
  "getUserRoadmaps (store_without_index same_second_docs) ''u1'' = Success same_second_docs
   \<and> \<not> sorted_by_createdAt same_second_docs"
  by (simp add: getUserRoadmaps_def store_without_index_def same_second_docs_def js_sort_def
      compare_createdAt_def createdAt_seconds_def createdAt_nanoseconds_def
      sorted_by_createdAt_def newer_or_same_def)

end
